theory Spec2Isabelle
  imports Complex_Main "HOL-Library.AList"
begin

section \<open>Tables of the pipeline\<close>

text \<open>
  The program \<^verbatim>\<open>sso_pipeline.py\<close> works on pandas data frames. A column of a frame has one
  dtype, and what an operation does (or whether it raises) is decided by the dtype, so a
  column is modelled as a typed list with an explicit null:
  \<^item> \<open>NumS\<close>: an int64 or float64 column; \<open>None\<close> is NaN. Numbers are rationals: every
    finite float is one, and the pipeline only negates, compares and adds them.
  \<^item> \<open>StrS\<close>: an object column of text, as \<^verbatim>\<open>read_csv\<close> yields it; \<open>None\<close> is NaN.
  \<^item> \<open>TimeS\<close>: a datetime64 column (nanoseconds since the epoch); \<open>None\<close> is NaT.
  Strings are ASCII text. A frame is its row count (the index) and its columns in order.
\<close>

datatype series =
    NumS "rat option list"
  | StrS "string option list"
  | TimeS "int option list"

datatype cell = Null | Num rat | Str string | Ts int

record frame =
  nrows :: nat
  columns :: "(string \<times> series) list"

datatype error = KeyError string | MergeError | TypeError | AttributeError

datatype pdvalue = Scalar "rat option" | Series series

text \<open>
  A statement that raises ends the function: \<open>ebind m f\<close> runs \<open>f\<close> on the result of
  \<open>m\<close>, or passes the error of \<open>m\<close> on.
\<close>

definition ebind :: "error + 'a \<Rightarrow> ('a \<Rightarrow> error + 'b) \<Rightarrow> error + 'b" where
  "ebind m f = (case m of Inl e \<Rightarrow> Inl e | Inr x \<Rightarrow> f x)"

text \<open>
  The parsers and formatters of pandas and Python are library code, not code of the
  repository. They are parameters of the model: every definition below takes them in a
  record, and every theorem holds for all of them.
\<close>

record pandas =
  str_of_num :: "rat \<Rightarrow> string"
  str_of_ts :: "int \<Rightarrow> string"
  parse_num :: "string \<Rightarrow> rat option"
  parse_dt :: "string \<Rightarrow> int option"
  num_dt :: "rat \<Rightarrow> int option"
  year_of :: "int \<Rightarrow> int"

subsection \<open>Series\<close>

fun slen :: "series \<Rightarrow> nat" where
  "slen (NumS xs) = length xs"
| "slen (StrS xs) = length xs"
| "slen (TimeS xs) = length xs"

fun cells :: "series \<Rightarrow> cell list" where
  "cells (NumS xs) = map (\<lambda>x. case x of None \<Rightarrow> Null | Some r \<Rightarrow> Num r) xs"
| "cells (StrS xs) = map (\<lambda>x. case x of None \<Rightarrow> Null | Some s \<Rightarrow> Str s) xs"
| "cells (TimeS xs) = map (\<lambda>x. case x of None \<Rightarrow> Null | Some t \<Rightarrow> Ts t) xs"

text \<open>Positional selection of rows; \<open>take_rows_opt\<close> fills a missing position with null.\<close>

fun take_rows :: "series \<Rightarrow> nat list \<Rightarrow> series" where
  "take_rows (NumS xs) is = NumS (map (\<lambda>i. xs ! i) is)"
| "take_rows (StrS xs) is = StrS (map (\<lambda>i. xs ! i) is)"
| "take_rows (TimeS xs) is = TimeS (map (\<lambda>i. xs ! i) is)"

fun take_rows_opt :: "series \<Rightarrow> nat option list \<Rightarrow> series" where
  "take_rows_opt (NumS xs) js = NumS (map (\<lambda>j. case j of None \<Rightarrow> None | Some i \<Rightarrow> xs ! i) js)"
| "take_rows_opt (StrS xs) js = StrS (map (\<lambda>j. case j of None \<Rightarrow> None | Some i \<Rightarrow> xs ! i) js)"
| "take_rows_opt (TimeS xs) js = TimeS (map (\<lambda>j. case j of None \<Rightarrow> None | Some i \<Rightarrow> xs ! i) js)"

subsection \<open>Text\<close>

text \<open>
  \<^verbatim>\<open>str.strip()\<close> removes leading and trailing whitespace, \<^verbatim>\<open>str.upper()\<close> maps the
  letters a-z to A-Z (ASCII).
\<close>

definition isspace :: "char \<Rightarrow> bool" where
  "isspace c = (let n = (of_char c :: nat) in (9 \<le> n \<and> n \<le> 13) \<or> (28 \<le> n \<and> n \<le> 32))"

definition upper_char :: "char \<Rightarrow> char" where
  "upper_char c = (let n = (of_char c :: nat) in if 97 \<le> n \<and> n \<le> 122 then char_of (n - 32) else c)"

definition strip :: "string \<Rightarrow> string" where
  "strip s = rev (dropWhile isspace (rev (dropWhile isspace s)))"

definition upper :: "string \<Rightarrow> string" where
  "upper s = map upper_char s"

text \<open>
  \<^verbatim>\<open>Series.astype(str)\<close>: every element becomes its Python string, a NaN the text
  \<^verbatim>\<open>nan\<close> (a NaT the text \<^verbatim>\<open>NaT\<close>). The \<^verbatim>\<open>.str\<close> accessor exists on text columns only.
\<close>

fun astype_str :: "pandas \<Rightarrow> series \<Rightarrow> series" where
  "astype_str lib (NumS xs) =
     StrS (map (\<lambda>x. case x of None \<Rightarrow> Some ''nan'' | Some r \<Rightarrow> Some (str_of_num lib r)) xs)"
| "astype_str lib (StrS xs) =
     StrS (map (\<lambda>x. case x of None \<Rightarrow> Some ''nan'' | Some s \<Rightarrow> Some s) xs)"
| "astype_str lib (TimeS xs) =
     StrS (map (\<lambda>x. case x of None \<Rightarrow> Some ''NaT'' | Some t \<Rightarrow> Some (str_of_ts lib t)) xs)"

fun str_strip :: "series \<Rightarrow> error + series" where
  "str_strip (StrS xs) = Inr (StrS (map (map_option strip) xs))"
| "str_strip _ = Inl AttributeError"

fun str_upper :: "series \<Rightarrow> error + series" where
  "str_upper (StrS xs) = Inr (StrS (map (map_option upper) xs))"
| "str_upper _ = Inl AttributeError"

subsection \<open>Numbers and timestamps\<close>

text \<open>
  \<^verbatim>\<open>pd.to_numeric(arg, errors="coerce")\<close>: text that does not parse becomes NaN. The
  argument \<^verbatim>\<open>None\<close> (what \<^verbatim>\<open>DataFrame.get\<close> returns for an absent column) is a scalar
  and comes back as the scalar NaN.
\<close>

fun to_numeric_series :: "pandas \<Rightarrow> series \<Rightarrow> series" where
  "to_numeric_series lib (NumS xs) = NumS xs"
| "to_numeric_series lib (StrS xs) =
     NumS (map (\<lambda>x. case x of None \<Rightarrow> None | Some s \<Rightarrow> parse_num lib s) xs)"
| "to_numeric_series lib (TimeS xs) = NumS (map (map_option rat_of_int) xs)"

definition to_numeric :: "pandas \<Rightarrow> series option \<Rightarrow> pdvalue" where
  "to_numeric lib arg =
     (case arg of None \<Rightarrow> Scalar None | Some s \<Rightarrow> Series (to_numeric_series lib s))"

text \<open>\<^verbatim>\<open>pd.to_datetime(series, errors="coerce")\<close>: what does not parse becomes NaT.\<close>

fun to_datetime :: "pandas \<Rightarrow> series \<Rightarrow> series" where
  "to_datetime lib (TimeS xs) = TimeS xs"
| "to_datetime lib (StrS xs) =
     TimeS (map (\<lambda>x. case x of None \<Rightarrow> None | Some s \<Rightarrow> parse_dt lib s) xs)"
| "to_datetime lib (NumS xs) =
     TimeS (map (\<lambda>x. case x of None \<Rightarrow> None | Some r \<Rightarrow> num_dt lib r) xs)"

text \<open>\<^verbatim>\<open>series.dt.year\<close>: on a datetime column only.\<close>

fun dt_year :: "pandas \<Rightarrow> series \<Rightarrow> error + series" where
  "dt_year lib (TimeS xs) = Inr (NumS (map (map_option (\<lambda>t. rat_of_int (year_of lib t))) xs))"
| "dt_year lib _ = Inl AttributeError"

text \<open>Comparisons of a numeric column with a scalar: a NaN compares false.\<close>

fun lt_scalar :: "series \<Rightarrow> rat \<Rightarrow> error + bool list" where
  "lt_scalar (NumS xs) k = Inr (map (\<lambda>x. case x of None \<Rightarrow> False | Some r \<Rightarrow> r < k) xs)"
| "lt_scalar _ k = Inl TypeError"

fun ge_scalar :: "series \<Rightarrow> rat \<Rightarrow> error + bool list" where
  "ge_scalar (NumS xs) k = Inr (map (\<lambda>x. case x of None \<Rightarrow> False | Some r \<Rightarrow> r \<ge> k) xs)"
| "ge_scalar _ k = Inl TypeError"

fun between :: "series \<Rightarrow> rat \<Rightarrow> rat \<Rightarrow> error + bool list" where
  "between (NumS xs) lo hi =
     Inr (map (\<lambda>x. case x of None \<Rightarrow> False | Some r \<Rightarrow> lo \<le> r \<and> r \<le> hi) xs)"
| "between _ lo hi = Inl TypeError"

definition mask_and :: "bool list \<Rightarrow> bool list \<Rightarrow> bool list" where
  "mask_and ms ns = map (\<lambda>(m, n). m \<and> n) (zip ms ns)"

subsection \<open>Frames\<close>

definition names :: "frame \<Rightarrow> string list" where
  "names f = map fst (columns f)"

text \<open>\<^verbatim>\<open>frame[c]\<close> raises KeyError for an absent column; \<^verbatim>\<open>frame.get(c)\<close> returns None.\<close>

definition getitem :: "frame \<Rightarrow> string \<Rightarrow> error + series" where
  "getitem f c = (case map_of (columns f) c of None \<Rightarrow> Inl (KeyError c) | Some s \<Rightarrow> Inr s)"

definition frame_get :: "frame \<Rightarrow> string \<Rightarrow> series option" where
  "frame_get f c = map_of (columns f) c"

text \<open>
  \<^verbatim>\<open>frame[c] = s\<close> replaces the column in place, or appends a new last column. A
  scalar is broadcast to the frame's rows.
\<close>

definition setitem :: "frame \<Rightarrow> string \<Rightarrow> series \<Rightarrow> frame" where
  "setitem f c s = f\<lparr>columns := AList.update c s (columns f)\<rparr>"

definition setitem_value :: "frame \<Rightarrow> string \<Rightarrow> pdvalue \<Rightarrow> frame" where
  "setitem_value f c v =
     (case v of
        Scalar x \<Rightarrow> setitem f c (NumS (replicate (nrows f) x))
      | Series s \<Rightarrow> setitem f c s)"

text \<open>
  \<^verbatim>\<open>frame.drop(columns=cs)\<close> raises KeyError for the first label that is absent; with
  \<^verbatim>\<open>errors="ignore"\<close> it drops the labels that exist.
\<close>

definition drop_ignore :: "frame \<Rightarrow> string list \<Rightarrow> frame" where
  "drop_ignore f cs = f\<lparr>columns := filter (\<lambda>(c, s). c \<notin> set cs) (columns f)\<rparr>"

definition drop_columns :: "frame \<Rightarrow> string list \<Rightarrow> error + frame" where
  "drop_columns f cs =
     (case filter (\<lambda>c. c \<notin> set (names f)) cs of
        [] \<Rightarrow> Inr (drop_ignore f cs)
      | c # _ \<Rightarrow> Inl (KeyError c))"

text \<open>
  \<^verbatim>\<open>frame.loc[mask, cs] = -frame.loc[mask, cs]\<close>: the rows the mask selects are
  negated in each of the columns; unary minus is for numeric columns.
\<close>

fun neg_where :: "bool list \<Rightarrow> series \<Rightarrow> error + series" where
  "neg_where sel (NumS xs) =
     Inr (NumS (map (\<lambda>(m, x). if m then map_option uminus x else x) (zip sel xs)))"
| "neg_where sel _ = Inl TypeError"

fun loc_negate :: "frame \<Rightarrow> bool list \<Rightarrow> string list \<Rightarrow> error + frame" where
  "loc_negate f sel [] = Inr f"
| "loc_negate f sel (c # cs) =
     ebind (getitem f c) (\<lambda>s.
     ebind (neg_where sel s) (\<lambda>s'.
     loc_negate (setitem f c s') sel cs))"

text \<open>The key of every row: its cells in the columns \<open>on\<close>, in that order.\<close>

fun get_columns :: "frame \<Rightarrow> string list \<Rightarrow> error + series list" where
  "get_columns f [] = Inr []"
| "get_columns f (c # cs) =
     ebind (getitem f c) (\<lambda>s.
     ebind (get_columns f cs) (\<lambda>ss.
     Inr (s # ss)))"

definition rows_of :: "nat \<Rightarrow> series list \<Rightarrow> cell list list" where
  "rows_of n ss = map (\<lambda>i. map (\<lambda>s. cells s ! i) ss) [0..<n]"

definition key_rows :: "frame \<Rightarrow> string list \<Rightarrow> error + cell list list" where
  "key_rows f on = ebind (get_columns f on) (\<lambda>ss. Inr (rows_of (nrows f) ss))"

text \<open>
  A data frame has as many values in every column as it has rows (\<open>lens_ok\<close>); a
  frame that \<^verbatim>\<open>read_csv\<close> returns also has no two columns of the same label.
\<close>

definition lens_ok :: "frame \<Rightarrow> bool" where
  "lens_ok f = list_all (\<lambda>(c, s). slen s = nrows f) (columns f)"

definition wf_frame :: "frame \<Rightarrow> bool" where
  "wf_frame f = (distinct (names f) \<and> lens_ok f)"

subsection \<open>Left merge\<close>

text \<open>
  \<^verbatim>\<open>left.merge(right, how="left", on=on, suffixes=(lsuffix, rsuffix))\<close>. Every left
  row is paired, in the order of the left frame, with each right row that has the same
  key, in the order of the right frame, or with no row when none has. The result has
  the left columns, then the right columns that are not keys; a label the two sides share
  takes its side's suffix, and suffixes that make two labels of a side equal raise
  MergeError.
\<close>

definition matches :: "'k list \<Rightarrow> 'k \<Rightarrow> nat list" where
  "matches rk k = filter (\<lambda>j. rk ! j = k) [0..<length rk]"

definition left_join_indexer :: "'k list \<Rightarrow> 'k list \<Rightarrow> (nat \<times> nat option) list" where
  "left_join_indexer lk rk =
     concat (map (\<lambda>i. case matches rk (lk ! i) of
                         [] \<Rightarrow> [(i, None)]
                       | j # js \<Rightarrow> map (\<lambda>j. (i, Some j)) (j # js))
                 [0..<length lk])"

definition merge_left ::
  "frame \<Rightarrow> frame \<Rightarrow> string list \<Rightarrow> string \<times> string \<Rightarrow> error + frame" where
  "merge_left left right on suffixes =
     ebind (key_rows left on) (\<lambda>lk.
     ebind (key_rows right on) (\<lambda>rk.
          (let rcols = filter (\<lambda>(c, s). c \<notin> set on) (columns right);
               to_rename = filter (\<lambda>c. c \<in> set (map fst rcols)) (names left);
               llabel = (\<lambda>c. if c \<in> set to_rename then c @ fst suffixes else c);
               rlabel = (\<lambda>c. if c \<in> set to_rename then c @ snd suffixes else c);
               idx = left_join_indexer lk rk
           in if \<not> distinct (map llabel (names left)) \<or> \<not> distinct (map (rlabel \<circ> fst) rcols)
              then Inl MergeError
              else Inr \<lparr>nrows = length idx,
                        columns =
                          map (\<lambda>(c, s). (llabel c, take_rows s (map fst idx))) (columns left) @
                          map (\<lambda>(c, s). (rlabel c, take_rows_opt s (map snd idx))) rcols\<rparr>)))"

subsection \<open>Grouped aggregation\<close>

text \<open>
  \<^verbatim>\<open>groupby(cols, dropna=False)\<close> makes one group for every distinct key among the
  rows, a null being a key value like any other, and emits the groups sorted by key
  with nulls last.
\<close>

fun str_le :: "string \<Rightarrow> string \<Rightarrow> bool" where
  "str_le [] ys = True"
| "str_le (x # xs) [] = False"
| "str_le (x # xs) (y # ys) =
     ((of_char x :: nat) < of_char y \<or> (x = y \<and> str_le xs ys))"

fun cell_le :: "cell \<Rightarrow> cell \<Rightarrow> bool" where
  "cell_le x Null = True"
| "cell_le Null y = False"
| "cell_le (Num a) (Num b) = (a \<le> b)"
| "cell_le (Num a) y = True"
| "cell_le (Str a) (Num b) = False"
| "cell_le (Str a) (Str b) = str_le a b"
| "cell_le (Str a) (Ts b) = True"
| "cell_le (Ts a) (Ts b) = (a \<le> b)"
| "cell_le (Ts a) y = False"

fun key_le :: "cell list \<Rightarrow> cell list \<Rightarrow> bool" where
  "key_le [] ys = True"
| "key_le (x # xs) [] = False"
| "key_le (x # xs) (y # ys) = (if x = y then key_le xs ys else cell_le x y)"

fun insert_key :: "cell list \<Rightarrow> cell list list \<Rightarrow> cell list list" where
  "insert_key k [] = [k]"
| "insert_key k (g # gs) = (if key_le k g then k # g # gs else g # insert_key k gs)"

definition sort_keys :: "cell list list \<Rightarrow> cell list list" where
  "sort_keys ks = foldr insert_key ks []"

definition group_keys :: "cell list list \<Rightarrow> cell list list" where
  "group_keys keys = sort_keys (remdups keys)"

definition group_rows :: "cell list list \<Rightarrow> cell list \<Rightarrow> nat list" where
  "group_rows keys g = filter (\<lambda>i. keys ! i = g) [0..<length keys]"

text \<open>
  The aggregations of the summary. \<^verbatim>\<open>nunique\<close> counts the distinct values that are not
  null; \<^verbatim>\<open>sum\<close> adds the values that are not null (an empty sum is 0); \<^verbatim>\<open>min\<close> and
  \<^verbatim>\<open>max\<close> skip nulls and are null when nothing is left. The pipeline hands \<^verbatim>\<open>sum\<close> a
  column made by \<^verbatim>\<open>to_numeric\<close> and \<^verbatim>\<open>min\<close>, \<^verbatim>\<open>max\<close> columns made by
  \<^verbatim>\<open>to_datetime\<close>; other dtypes are not reached and are left as TypeError.
\<close>

definition nunique :: "cell list \<Rightarrow> nat" where
  "nunique cs = length (remdups (filter (\<lambda>c. c \<noteq> Null) cs))"

definition somes :: "'a option list \<Rightarrow> 'a list" where
  "somes xs = concat (map (\<lambda>x. case x of None \<Rightarrow> [] | Some y \<Rightarrow> [y]) xs)"

definition min_skipna :: "('a::linorder) option list \<Rightarrow> 'a option" where
  "min_skipna xs = (case somes xs of [] \<Rightarrow> None | y # ys \<Rightarrow> Some (fold min ys y))"

definition max_skipna :: "('a::linorder) option list \<Rightarrow> 'a option" where
  "max_skipna xs = (case somes xs of [] \<Rightarrow> None | y # ys \<Rightarrow> Some (fold max ys y))"

definition agg_nunique :: "series \<Rightarrow> nat list list \<Rightarrow> series" where
  "agg_nunique s groups =
     NumS (map (\<lambda>g. Some (of_nat (nunique (map (\<lambda>i. cells s ! i) g)))) groups)"

fun agg_sum :: "series \<Rightarrow> nat list list \<Rightarrow> error + series" where
  "agg_sum (NumS xs) groups =
     Inr (NumS (map (\<lambda>g. Some (sum_list (somes (map (\<lambda>i. xs ! i) g)))) groups))"
| "agg_sum _ groups = Inl TypeError"

fun agg_min :: "series \<Rightarrow> nat list list \<Rightarrow> error + series" where
  "agg_min (TimeS xs) groups = Inr (TimeS (map (\<lambda>g. min_skipna (map (\<lambda>i. xs ! i) g)) groups))"
| "agg_min (NumS xs) groups = Inr (NumS (map (\<lambda>g. min_skipna (map (\<lambda>i. xs ! i) g)) groups))"
| "agg_min (StrS xs) groups = Inl TypeError"

fun agg_max :: "series \<Rightarrow> nat list list \<Rightarrow> error + series" where
  "agg_max (TimeS xs) groups = Inr (TimeS (map (\<lambda>g. max_skipna (map (\<lambda>i. xs ! i) g)) groups))"
| "agg_max (NumS xs) groups = Inr (NumS (map (\<lambda>g. max_skipna (map (\<lambda>i. xs ! i) g)) groups))"
| "agg_max (StrS xs) groups = Inl TypeError"

section \<open>The pipeline: \<^verbatim>\<open>merge_sso_with_collection_system\<close>\<close>

record outputs =
  collection_system_permit_raw :: frame
  sewer_overflow_bypass_event_raw :: frame
  sso_events_with_collection_system :: frame
  sso_summary_by_permit_year :: frame

text \<open>
  Normalized join keys:
  \<^verbatim>\<open>frame["_permit_join"] = frame["permit_identifier"].astype(str).str.strip().str.upper()\<close>
  for the permits and then the events, and the same for \<^verbatim>\<open>_cs_join\<close>. The function
  assigns into the frames it was given, so the frames after the call are part of the
  result.
\<close>

definition normalized :: "pandas \<Rightarrow> series \<Rightarrow> error + series" where
  "normalized lib s = ebind (str_strip (astype_str lib s)) (\<lambda>t. str_upper t)"

definition set_join_key :: "pandas \<Rightarrow> frame \<Rightarrow> string \<Rightarrow> string \<Rightarrow> error + frame" where
  "set_join_key lib fr dst src =
     ebind (getitem fr src) (\<lambda>s.
     ebind (normalized lib s) (\<lambda>k.
     Inr (setitem fr dst k)))"

definition normalize_join_keys :: "pandas \<Rightarrow> frame \<Rightarrow> frame \<Rightarrow> error + frame \<times> frame" where
  "normalize_join_keys lib df_coll df_sso =
     ebind (set_join_key lib df_coll ''_permit_join'' ''permit_identifier'') (\<lambda>df_coll.
     ebind (set_join_key lib df_sso ''_permit_join'' ''permit_identifier'') (\<lambda>df_sso.
     ebind (set_join_key lib df_coll ''_cs_join'' ''collection_system_identifier'') (\<lambda>df_coll.
     ebind (set_join_key lib df_sso ''_cs_join'' ''collection_system_identifier'') (\<lambda>df_sso.
     Inr (df_coll, df_sso)))))"

text \<open>
  Coordinate cleanup of the events: both columns to numeric, then the rows with a
  negative latitude have both coordinates negated, then the rows with a latitude
  \<open>\<ge> 0\<close> and a longitude between 60 and 110 have the longitude negated.
\<close>

definition coordinate_cleanup :: "pandas \<Rightarrow> frame \<Rightarrow> error + frame" where
  "coordinate_cleanup lib df_sso =
     (let df_sso = setitem_value df_sso ''latitude_measure''
                     (to_numeric lib (frame_get df_sso ''latitude_measure''));
          df_sso = setitem_value df_sso ''longitude_measure''
                     (to_numeric lib (frame_get df_sso ''longitude_measure''))
      in
      ebind (getitem df_sso ''latitude_measure'') (\<lambda>lat.
      ebind (lt_scalar lat 0) (\<lambda>mask_both.
      ebind (loc_negate df_sso mask_both [''latitude_measure'', ''longitude_measure'']) (\<lambda>df_sso.
      ebind (getitem df_sso ''latitude_measure'') (\<lambda>lat.
      ebind (ge_scalar lat 0) (\<lambda>lat_ge.
      ebind (getitem df_sso ''longitude_measure'') (\<lambda>lon.
      ebind (between lon 60 110) (\<lambda>lon_in.
      loc_negate df_sso (mask_and lat_ge lon_in) [''longitude_measure'']))))))))"

text \<open>The per-permit/year summary of the merged events.\<close>

definition summary_group_cols :: "string list" where
  "summary_group_cols =
     [''permit_identifier'', ''collection_system_identifier'', ''collection_system_name'',
      ''collection_system_owner_type_desc'', ''collection_system_population'', ''year'']"

definition parse_summary_columns :: "pandas \<Rightarrow> frame \<Rightarrow> error + frame" where
  "parse_summary_columns lib df_summary =
     (ebind (getitem df_summary ''sewer_overflow_bypass_start_datetime'') (\<lambda>s.
      let df_summary = setitem df_summary ''sso_start_dt'' (to_datetime lib s) in
      ebind (getitem df_summary ''sewer_overflow_bypass_end_datetime'') (\<lambda>s.
      let df_summary = setitem df_summary ''sso_end_dt'' (to_datetime lib s) in
      ebind (getitem df_summary ''sewer_overflow_bypass_discharge_volume_gallons'') (\<lambda>s.
      let df_summary = setitem_value df_summary ''sso_volume_gal'' (to_numeric lib (Some s)) in
      ebind (getitem df_summary ''sso_start_dt'') (\<lambda>s.
      ebind (dt_year lib s) (\<lambda>y.
      Inr (setitem df_summary ''year'' y)))))))"

definition groupby_agg :: "frame \<Rightarrow> error + frame" where
  "groupby_agg df_summary =
     (ebind (get_columns df_summary summary_group_cols) (\<lambda>kcols.
      ebind (getitem df_summary ''sewer_overflow_bypass_event_key'') (\<lambda>ek.
      ebind (getitem df_summary ''sso_volume_gal'') (\<lambda>vol.
      ebind (getitem df_summary ''sso_start_dt'') (\<lambda>st.
      ebind (getitem df_summary ''sso_end_dt'') (\<lambda>en.
      (let keys = rows_of (nrows df_summary) kcols;
           groups = map (group_rows keys) (group_keys keys)
       in
       ebind (agg_sum vol groups) (\<lambda>total_volume.
       ebind (agg_min st groups) (\<lambda>first_event.
       ebind (agg_max en groups) (\<lambda>last_event.
       Inr \<lparr>nrows = length groups,
            columns =
              map (\<lambda>(c, s). (c, take_rows s (map hd groups))) (zip summary_group_cols kcols) @
              [(''sso_event_count'', agg_nunique ek groups),
               (''sso_total_volume_gal'', total_volume),
               (''sso_first_event'', first_event),
               (''sso_last_event'', last_event)]\<rparr>))))))))))"

definition join_cols :: "string list" where
  "join_cols = [''_permit_join'', ''_cs_join'']"

text \<open>
  The function. Its result is the dictionary of the four output tables, and the two
  argument frames as the call leaves them.
\<close>

definition merge_sso_with_collection_system ::
  "pandas \<Rightarrow> frame \<Rightarrow> frame \<Rightarrow> error + outputs \<times> frame \<times> frame" where
  "merge_sso_with_collection_system lib df_coll df_sso =
     (let df_coll_raw = df_coll; df_sso_raw = df_sso in
      ebind (normalize_join_keys lib df_coll df_sso) (\<lambda>(df_coll, df_sso).
      ebind (coordinate_cleanup lib df_sso) (\<lambda>df_sso.
      ebind (merge_left df_sso df_coll join_cols ([], ''_coll'')) (\<lambda>df_merged.
      ebind (drop_columns df_merged join_cols) (\<lambda>df_merged.
      let df_coll_raw = drop_ignore df_coll_raw join_cols;
          df_sso_raw = drop_ignore df_sso_raw join_cols
      in
      ebind (parse_summary_columns lib df_merged) (\<lambda>df_summary.
      ebind (groupby_agg df_summary) (\<lambda>sso_summary.
      Inr (\<lparr>collection_system_permit_raw = df_coll_raw,
            sewer_overflow_bypass_event_raw = df_sso_raw,
            sso_events_with_collection_system = df_merged,
            sso_summary_by_permit_year = sso_summary\<rparr>,
           df_coll, df_sso))))))))"

section \<open>Definitions in the words of the specification\<close>

text \<open>
  A coordinate column as \<^verbatim>\<open>pd.to_numeric\<close> reads it: the parsed value of every row, null
  where the cell is missing or does not parse, and all null when the frame has no such
  column.
\<close>

fun nums :: "series \<Rightarrow> rat option list" where
  "nums (NumS xs) = xs"
| "nums (StrS xs) = []"
| "nums (TimeS xs) = []"

definition numeric_column :: "pandas \<Rightarrow> frame \<Rightarrow> string \<Rightarrow> rat option list" where
  "numeric_column lib f c =
     (case frame_get f c of
        None \<Rightarrow> replicate (nrows f) None
      | Some s \<Rightarrow> nums (to_numeric_series lib s))"

text \<open>
  The reference definition of the coordinate correction of a row (latitude, longitude):
  Rule A negates both when the latitude is negative; then Rule B negates the longitude
  when the latitude is \<open>\<ge> 0\<close> and the longitude lies in [60, 110].
\<close>

definition rule_A :: "rat \<times> rat \<Rightarrow> rat \<times> rat" where
  "rule_A p = (if fst p < 0 then (- fst p, - snd p) else p)"

definition rule_B :: "rat \<times> rat \<Rightarrow> rat \<times> rat" where
  "rule_B p = (if 0 \<le> fst p \<and> 60 \<le> snd p \<and> snd p \<le> 110 then (fst p, - snd p) else p)"

definition correct_coordinates :: "rat \<times> rat \<Rightarrow> rat \<times> rat" where
  "correct_coordinates p = rule_B (rule_A p)"

text \<open>
  The same for a row whose parsed coordinates may be null: a null latitude leaves the
  row as it is; with a null longitude only Rule A applies, to the latitude.
\<close>

fun corrected_row :: "rat option \<times> rat option \<Rightarrow> rat option \<times> rat option" where
  "corrected_row (Some a, Some b) =
     (Some (fst (correct_coordinates (a, b))), Some (snd (correct_coordinates (a, b))))"
| "corrected_row (Some a, None) = (Some (if a < 0 then - a else a), None)"
| "corrected_row (None, lon) = (None, lon)"

text \<open>
  The normalized join key of an identifier cell: the text of the cell (of a null, the
  text \<^verbatim>\<open>nan\<close>), trimmed and uppercased.
\<close>

fun cell_text :: "pandas \<Rightarrow> cell \<Rightarrow> string" where
  "cell_text lib Null = ''nan''"
| "cell_text lib (Str s) = s"
| "cell_text lib (Num r) = str_of_num lib r"
| "cell_text lib (Ts t) = str_of_ts lib t"

definition join_key :: "pandas \<Rightarrow> cell \<Rightarrow> string" where
  "join_key lib c = upper (strip (cell_text lib c))"

fun is_time :: "series \<Rightarrow> bool" where
  "is_time (TimeS xs) = True"
| "is_time (NumS xs) = False"
| "is_time (StrS xs) = False"

text \<open>
  The tables come from \<^verbatim>\<open>read_csv\<close>, which yields number and text columns: a frame
  without a datetime column.
\<close>

definition csv_frame :: "frame \<Rightarrow> bool" where
  "csv_frame f = list_all (\<lambda>(c, s). \<not> is_time s) (columns f)"

text \<open>
  The columns the function reads by label, and a sufficient condition on the labels of
  the two tables for it to return: the labels of each table are distinct, the tables have
  the columns the function reads, and no permit label is another permit label with the
  merge suffix \<^verbatim>\<open>_coll\<close> appended. The coordinate columns are not among them.
\<close>

definition required_permit_columns :: "string list" where
  "required_permit_columns =
     [''permit_identifier'', ''collection_system_identifier'', ''collection_system_name'',
      ''collection_system_owner_type_desc'', ''collection_system_population'']"

definition required_event_columns :: "string list" where
  "required_event_columns =
     [''permit_identifier'', ''collection_system_identifier'',
      ''sewer_overflow_bypass_event_key'', ''sewer_overflow_bypass_start_datetime'',
      ''sewer_overflow_bypass_end_datetime'',
      ''sewer_overflow_bypass_discharge_volume_gallons'']"

definition tables_ok :: "frame \<Rightarrow> frame \<Rightarrow> bool" where
  "tables_ok P E =
     (distinct (names P) \<and> distinct (names E) \<and>
      list_all (\<lambda>c. c \<in> set (names P)) required_permit_columns \<and>
      list_all (\<lambda>c. c \<in> set (names E)) required_event_columns \<and>
      list_all (\<lambda>c. c @ ''_coll'' \<notin> set (names P)) (names P))"

section \<open>Auxiliary definitions\<close>

text \<open>
  The coordinate columns after the assignments of the coordinate cleanup, as functions
  of the parsed columns: the latitude after the first assignment, the longitude after the
  first and after the second.
\<close>

definition lat_after :: "rat option list \<Rightarrow> rat option list" where
  "lat_after la =
     map (\<lambda>(m, x). if m then map_option uminus x else x)
       (zip (map (\<lambda>x. case x of None \<Rightarrow> False | Some r \<Rightarrow> r < 0) la) la)"

definition lon_mid :: "rat option list \<Rightarrow> rat option list \<Rightarrow> rat option list" where
  "lon_mid la lo =
     map (\<lambda>(m, x). if m then map_option uminus x else x)
       (zip (map (\<lambda>x. case x of None \<Rightarrow> False | Some r \<Rightarrow> r < 0) la) lo)"

definition lon_after :: "rat option list \<Rightarrow> rat option list \<Rightarrow> rat option list" where
  "lon_after la lo =
     map (\<lambda>(m, x). if m then map_option uminus x else x)
       (zip (mask_and (map (\<lambda>x. case x of None \<Rightarrow> False | Some r \<Rightarrow> 0 \<le> r) (lat_after la))
                      (map (\<lambda>x. case x of None \<Rightarrow> False | Some r \<Rightarrow> 60 \<le> r \<and> r \<le> 110)
                         (lon_mid la lo)))
            (lon_mid la lo))"


section \<open>Concrete tables\<close>

text \<open>
  An instance of the library parameters and a few small tables, on which the model is
  run: numbers are decimal integers, a timestamp is written as its year, and a number is
  formatted as the text \<^verbatim>\<open>num\<close> (the tables below have text identifiers).
\<close>

fun digits_val :: "string \<Rightarrow> nat \<Rightarrow> nat option" where
  "digits_val [] acc = Some acc"
| "digits_val (c # cs) acc =
     (let n = (of_char c :: nat) in
      if 48 \<le> n \<and> n \<le> 57 then digits_val cs (10 * acc + (n - 48)) else None)"

definition parse_decimal :: "string \<Rightarrow> int option" where
  "parse_decimal s =
     (case strip s of
        [] \<Rightarrow> None
      | c # cs \<Rightarrow>
          if c = CHR ''-''
          then (if cs = [] then None else map_option (\<lambda>n. - int n) (digits_val cs 0))
          else map_option int (digits_val (c # cs) 0))"

definition lib_test :: pandas where
  "lib_test =
     \<lparr>str_of_num = (\<lambda>r. ''num''), str_of_ts = (\<lambda>t. ''ts''),
      parse_num = (\<lambda>s. map_option rat_of_int (parse_decimal s)),
      parse_dt = parse_decimal, num_dt = (\<lambda>r. None), year_of = (\<lambda>t. t)\<rparr>"

text \<open>One permit; and two permit rows whose identifiers differ in case and whitespace only.\<close>

definition P_single :: frame where
  "P_single =
     \<lparr>nrows = 1, columns =
       [(''permit_identifier'', StrS [Some ''IA0012345'']),
        (''collection_system_identifier'', StrS [Some ''A'']),
        (''collection_system_name'', StrS [Some ''Ames'']),
        (''collection_system_owner_type_desc'', StrS [None]),
        (''collection_system_population'', NumS [None])]\<rparr>"

definition P_fan :: frame where
  "P_fan =
     \<lparr>nrows = 2, columns =
       [(''permit_identifier'', StrS [Some ''IA0012345'', Some ''ia0012345 '']),
        (''collection_system_identifier'', StrS [Some ''A'', Some ''a'']),
        (''collection_system_name'', StrS [Some ''Ames'', Some ''Ames'']),
        (''collection_system_owner_type_desc'', StrS [None, None]),
        (''collection_system_population'', NumS [Some 5, Some 5])]\<rparr>"

text \<open>A permit without identifiers.\<close>

definition P_null :: frame where
  "P_null =
     \<lparr>nrows = 1, columns =
       [(''permit_identifier'', StrS [None]),
        (''collection_system_identifier'', StrS [None]),
        (''collection_system_name'', StrS [Some ''Orphan'']),
        (''collection_system_owner_type_desc'', StrS [None]),
        (''collection_system_population'', NumS [None])]\<rparr>"

text \<open>
  One event, with a negative latitude and a longitude that is not a number; the same
  event without identifiers; and four events of one permit, the last with a start
  time that does not parse.
\<close>

definition E_one :: frame where
  "E_one =
     \<lparr>nrows = 1, columns =
       [(''permit_identifier'', StrS [Some '' ia0012345 '']),
        (''collection_system_identifier'', StrS [Some ''a'']),
        (''sewer_overflow_bypass_event_key'', NumS [Some 1]),
        (''sewer_overflow_bypass_start_datetime'', StrS [Some ''2020'']),
        (''sewer_overflow_bypass_end_datetime'', StrS [Some ''2021'']),
        (''sewer_overflow_bypass_discharge_volume_gallons'', StrS [Some ''1000'']),
        (''latitude_measure'', NumS [Some (- 40)]),
        (''longitude_measure'', StrS [Some ''abc''])]\<rparr>"

definition E_null :: frame where
  "E_null =
     \<lparr>nrows = 1, columns =
       [(''permit_identifier'', StrS [None]),
        (''collection_system_identifier'', StrS [None]),
        (''sewer_overflow_bypass_event_key'', NumS [Some 1]),
        (''sewer_overflow_bypass_start_datetime'', StrS [Some ''2020'']),
        (''sewer_overflow_bypass_end_datetime'', StrS [Some ''2021'']),
        (''sewer_overflow_bypass_discharge_volume_gallons'', StrS [Some ''1000'']),
        (''latitude_measure'', NumS [Some (- 41)]),
        (''longitude_measure'', NumS [Some 98])]\<rparr>"

definition E_four :: frame where
  "E_four =
     \<lparr>nrows = 4, columns =
       [(''permit_identifier'',
           StrS [Some ''ia0012345 '', Some ''ia0012345 '', Some ''ia0012345 '', Some ''ia0012345 '']),
        (''collection_system_identifier'', StrS [Some ''a'', Some ''a'', Some ''a'', Some ''a'']),
        (''sewer_overflow_bypass_event_key'', NumS [Some 1, Some 2, Some 3, Some 4]),
        (''sewer_overflow_bypass_start_datetime'',
           StrS [Some ''2020'', Some ''2020'', Some ''2020'', Some ''x'']),
        (''sewer_overflow_bypass_end_datetime'',
           StrS [Some ''2021'', None, Some ''2022'', Some ''x'']),
        (''sewer_overflow_bypass_discharge_volume_gallons'',
           StrS [Some ''1000'', Some ''abc'', Some ''2000'', Some ''7'']),
        (''latitude_measure'', StrS [Some ''-41'', Some ''40'', Some ''abc'', Some ''13'']),
        (''longitude_measure'', NumS [Some 98, Some 88, Some 75, Some 144])]\<rparr>"

text \<open>
  The event of \<open>E_one\<close> in a table that already has a column \<^verbatim>\<open>_cs_join\<close>; in a table
  without coordinate columns; and the permit of \<open>P_single\<close> without its
  \<^verbatim>\<open>permit_identifier\<close> column.
\<close>

definition E_helper :: frame where
  "E_helper = E_one\<lparr>columns := columns E_one @ [(''_cs_join'', StrS [Some ''x''])]\<rparr>"

definition E_nocoord :: frame where
  "E_nocoord =
     \<lparr>nrows = 1, columns =
       [(''permit_identifier'', StrS [Some '' ia0012345 '']),
        (''collection_system_identifier'', StrS [Some ''a'']),
        (''sewer_overflow_bypass_event_key'', NumS [Some 1]),
        (''sewer_overflow_bypass_start_datetime'', StrS [Some ''2020'']),
        (''sewer_overflow_bypass_end_datetime'', StrS [Some ''2021'']),
        (''sewer_overflow_bypass_discharge_volume_gallons'', StrS [Some ''1000''])]\<rparr>"

definition P_noid :: frame where
  "P_noid =
     \<lparr>nrows = 1, columns =
       [(''collection_system_identifier'', StrS [Some ''A'']),
        (''collection_system_name'', StrS [Some ''Ames'']),
        (''collection_system_owner_type_desc'', StrS [None]),
        (''collection_system_population'', NumS [None])]\<rparr>"

text \<open>
  What the function returns on these tables, and the two frames as it leaves them:
  \<open>P_single\<close> with \<open>E_four\<close>, \<open>P_fan\<close> with \<open>E_one\<close>, \<open>P_null\<close> with \<open>E_null\<close>.
\<close>

definition merged_four :: frame where
  "merged_four =
     \<lparr>nrows = 4, columns =
       [(''permit_identifier'',
           StrS [Some ''ia0012345 '', Some ''ia0012345 '', Some ''ia0012345 '', Some ''ia0012345 '']),
        (''collection_system_identifier'',
           StrS [Some ''a'', Some ''a'', Some ''a'', Some ''a'']),
        (''sewer_overflow_bypass_event_key'', NumS [Some 1, Some 2, Some 3, Some 4]),
        (''sewer_overflow_bypass_start_datetime'',
           StrS [Some ''2020'', Some ''2020'', Some ''2020'', Some ''x'']),
        (''sewer_overflow_bypass_end_datetime'',
           StrS [Some ''2021'', None, Some ''2022'', Some ''x'']),
        (''sewer_overflow_bypass_discharge_volume_gallons'',
           StrS [Some ''1000'', Some ''abc'', Some ''2000'', Some ''7'']),
        (''latitude_measure'', NumS [Some 41, Some 40, None, Some 13]),
        (''longitude_measure'', NumS [Some (- 98), Some (- 88), Some 75, Some 144]),
        (''permit_identifier_coll'',
           StrS [Some ''IA0012345'', Some ''IA0012345'', Some ''IA0012345'', Some ''IA0012345'']),
        (''collection_system_identifier_coll'',
           StrS [Some ''A'', Some ''A'', Some ''A'', Some ''A'']),
        (''collection_system_name'',
           StrS [Some ''Ames'', Some ''Ames'', Some ''Ames'', Some ''Ames'']),
        (''collection_system_owner_type_desc'', StrS [None, None, None, None]),
        (''collection_system_population'', NumS [None, None, None, None])]\<rparr>"

definition summary_four :: frame where
  "summary_four =
     \<lparr>nrows = 2, columns =
       [(''permit_identifier'', StrS [Some ''ia0012345 '', Some ''ia0012345 '']),
        (''collection_system_identifier'', StrS [Some ''a'', Some ''a'']),
        (''collection_system_name'', StrS [Some ''Ames'', Some ''Ames'']),
        (''collection_system_owner_type_desc'', StrS [None, None]),
        (''collection_system_population'', NumS [None, None]),
        (''year'', NumS [Some 2020, None]),
        (''sso_event_count'', NumS [Some 3, Some 1]),
        (''sso_total_volume_gal'', NumS [Some 3000, Some 7]),
        (''sso_first_event'', TimeS [Some 2020, None]),
        (''sso_last_event'', TimeS [Some 2022, None])]\<rparr>"

definition P_single_after :: frame where
  "P_single_after =
     \<lparr>nrows = 1, columns =
       [(''permit_identifier'', StrS [Some ''IA0012345'']),
        (''collection_system_identifier'', StrS [Some ''A'']),
        (''collection_system_name'', StrS [Some ''Ames'']),
        (''collection_system_owner_type_desc'', StrS [None]),
        (''collection_system_population'', NumS [None]),
        (''_permit_join'', StrS [Some ''IA0012345'']),
        (''_cs_join'', StrS [Some ''A''])]\<rparr>"

definition E_four_after :: frame where
  "E_four_after =
     \<lparr>nrows = 4, columns =
       [(''permit_identifier'',
           StrS [Some ''ia0012345 '', Some ''ia0012345 '', Some ''ia0012345 '', Some ''ia0012345 '']),
        (''collection_system_identifier'',
           StrS [Some ''a'', Some ''a'', Some ''a'', Some ''a'']),
        (''sewer_overflow_bypass_event_key'', NumS [Some 1, Some 2, Some 3, Some 4]),
        (''sewer_overflow_bypass_start_datetime'',
           StrS [Some ''2020'', Some ''2020'', Some ''2020'', Some ''x'']),
        (''sewer_overflow_bypass_end_datetime'',
           StrS [Some ''2021'', None, Some ''2022'', Some ''x'']),
        (''sewer_overflow_bypass_discharge_volume_gallons'',
           StrS [Some ''1000'', Some ''abc'', Some ''2000'', Some ''7'']),
        (''latitude_measure'', NumS [Some 41, Some 40, None, Some 13]),
        (''longitude_measure'', NumS [Some (- 98), Some (- 88), Some 75, Some 144]),
        (''_permit_join'',
           StrS [Some ''IA0012345'', Some ''IA0012345'', Some ''IA0012345'', Some ''IA0012345'']),
        (''_cs_join'', StrS [Some ''A'', Some ''A'', Some ''A'', Some ''A''])]\<rparr>"

definition out_four :: outputs where
  "out_four =
     \<lparr>collection_system_permit_raw = P_single,
      sewer_overflow_bypass_event_raw = E_four,
      sso_events_with_collection_system = merged_four,
      sso_summary_by_permit_year = summary_four\<rparr>"

definition merged_fan :: frame where
  "merged_fan =
     \<lparr>nrows = 2, columns =
       [(''permit_identifier'', StrS [Some '' ia0012345 '', Some '' ia0012345 '']),
        (''collection_system_identifier'', StrS [Some ''a'', Some ''a'']),
        (''sewer_overflow_bypass_event_key'', NumS [Some 1, Some 1]),
        (''sewer_overflow_bypass_start_datetime'', StrS [Some ''2020'', Some ''2020'']),
        (''sewer_overflow_bypass_end_datetime'', StrS [Some ''2021'', Some ''2021'']),
        (''sewer_overflow_bypass_discharge_volume_gallons'',
           StrS [Some ''1000'', Some ''1000'']),
        (''latitude_measure'', NumS [Some 40, Some 40]),
        (''longitude_measure'', NumS [None, None]),
        (''permit_identifier_coll'', StrS [Some ''IA0012345'', Some ''ia0012345 '']),
        (''collection_system_identifier_coll'', StrS [Some ''A'', Some ''a'']),
        (''collection_system_name'', StrS [Some ''Ames'', Some ''Ames'']),
        (''collection_system_owner_type_desc'', StrS [None, None]),
        (''collection_system_population'', NumS [Some 5, Some 5])]\<rparr>"

definition summary_fan :: frame where
  "summary_fan =
     \<lparr>nrows = 1, columns =
       [(''permit_identifier'', StrS [Some '' ia0012345 '']),
        (''collection_system_identifier'', StrS [Some ''a'']),
        (''collection_system_name'', StrS [Some ''Ames'']),
        (''collection_system_owner_type_desc'', StrS [None]),
        (''collection_system_population'', NumS [Some 5]),
        (''year'', NumS [Some 2020]),
        (''sso_event_count'', NumS [Some 1]),
        (''sso_total_volume_gal'', NumS [Some 2000]),
        (''sso_first_event'', TimeS [Some 2020]),
        (''sso_last_event'', TimeS [Some 2021])]\<rparr>"

definition P_fan_after :: frame where
  "P_fan_after =
     \<lparr>nrows = 2, columns =
       [(''permit_identifier'', StrS [Some ''IA0012345'', Some ''ia0012345 '']),
        (''collection_system_identifier'', StrS [Some ''A'', Some ''a'']),
        (''collection_system_name'', StrS [Some ''Ames'', Some ''Ames'']),
        (''collection_system_owner_type_desc'', StrS [None, None]),
        (''collection_system_population'', NumS [Some 5, Some 5]),
        (''_permit_join'', StrS [Some ''IA0012345'', Some ''IA0012345'']),
        (''_cs_join'', StrS [Some ''A'', Some ''A''])]\<rparr>"

definition E_one_after :: frame where
  "E_one_after =
     \<lparr>nrows = 1, columns =
       [(''permit_identifier'', StrS [Some '' ia0012345 '']),
        (''collection_system_identifier'', StrS [Some ''a'']),
        (''sewer_overflow_bypass_event_key'', NumS [Some 1]),
        (''sewer_overflow_bypass_start_datetime'', StrS [Some ''2020'']),
        (''sewer_overflow_bypass_end_datetime'', StrS [Some ''2021'']),
        (''sewer_overflow_bypass_discharge_volume_gallons'', StrS [Some ''1000'']),
        (''latitude_measure'', NumS [Some 40]),
        (''longitude_measure'', NumS [None]),
        (''_permit_join'', StrS [Some ''IA0012345'']),
        (''_cs_join'', StrS [Some ''A''])]\<rparr>"

definition out_fan :: outputs where
  "out_fan =
     \<lparr>collection_system_permit_raw = P_fan,
      sewer_overflow_bypass_event_raw = E_one,
      sso_events_with_collection_system = merged_fan,
      sso_summary_by_permit_year = summary_fan\<rparr>"

definition merged_null :: frame where
  "merged_null =
     \<lparr>nrows = 1, columns =
       [(''permit_identifier'', StrS [None]),
        (''collection_system_identifier'', StrS [None]),
        (''sewer_overflow_bypass_event_key'', NumS [Some 1]),
        (''sewer_overflow_bypass_start_datetime'', StrS [Some ''2020'']),
        (''sewer_overflow_bypass_end_datetime'', StrS [Some ''2021'']),
        (''sewer_overflow_bypass_discharge_volume_gallons'', StrS [Some ''1000'']),
        (''latitude_measure'', NumS [Some 41]),
        (''longitude_measure'', NumS [Some (- 98)]),
        (''permit_identifier_coll'', StrS [None]),
        (''collection_system_identifier_coll'', StrS [None]),
        (''collection_system_name'', StrS [Some ''Orphan'']),
        (''collection_system_owner_type_desc'', StrS [None]),
        (''collection_system_population'', NumS [None])]\<rparr>"

definition summary_null :: frame where
  "summary_null =
     \<lparr>nrows = 1, columns =
       [(''permit_identifier'', StrS [None]),
        (''collection_system_identifier'', StrS [None]),
        (''collection_system_name'', StrS [Some ''Orphan'']),
        (''collection_system_owner_type_desc'', StrS [None]),
        (''collection_system_population'', NumS [None]),
        (''year'', NumS [Some 2020]),
        (''sso_event_count'', NumS [Some 1]),
        (''sso_total_volume_gal'', NumS [Some 1000]),
        (''sso_first_event'', TimeS [Some 2020]),
        (''sso_last_event'', TimeS [Some 2021])]\<rparr>"

definition P_null_after :: frame where
  "P_null_after =
     \<lparr>nrows = 1, columns =
       [(''permit_identifier'', StrS [None]),
        (''collection_system_identifier'', StrS [None]),
        (''collection_system_name'', StrS [Some ''Orphan'']),
        (''collection_system_owner_type_desc'', StrS [None]),
        (''collection_system_population'', NumS [None]),
        (''_permit_join'', StrS [Some ''NAN'']),
        (''_cs_join'', StrS [Some ''NAN''])]\<rparr>"

definition E_null_after :: frame where
  "E_null_after =
     \<lparr>nrows = 1, columns =
       [(''permit_identifier'', StrS [None]),
        (''collection_system_identifier'', StrS [None]),
        (''sewer_overflow_bypass_event_key'', NumS [Some 1]),
        (''sewer_overflow_bypass_start_datetime'', StrS [Some ''2020'']),
        (''sewer_overflow_bypass_end_datetime'', StrS [Some ''2021'']),
        (''sewer_overflow_bypass_discharge_volume_gallons'', StrS [Some ''1000'']),
        (''latitude_measure'', NumS [Some 41]),
        (''longitude_measure'', NumS [Some (- 98)]),
        (''_permit_join'', StrS [Some ''NAN'']),
        (''_cs_join'', StrS [Some ''NAN''])]\<rparr>"

definition out_null :: outputs where
  "out_null =
     \<lparr>collection_system_permit_raw = P_null,
      sewer_overflow_bypass_event_raw = E_null,
      sso_events_with_collection_system = merged_null,
      sso_summary_by_permit_year = summary_null\<rparr>"


section \<open>Basic facts\<close>

lemma ebind_Inr [simp]: "ebind (Inr x) f = f x"
  by (simp add: ebind_def)

lemma ebind_Inl [simp]: "ebind (Inl e) f = Inl e"
  by (simp add: ebind_def)

lemma ebind_eq_Inr: "(ebind m f = Inr y) = (\<exists>x. m = Inr x \<and> f x = Inr y)"
  by (cases m) auto

lemma getitem_setitem_same [simp]: "getitem (setitem f c s) c = Inr s"
  by (simp add: getitem_def setitem_def update_conv')

lemma getitem_setitem_other [simp]: "d \<noteq> c \<Longrightarrow> getitem (setitem f c s) d = getitem f d"
  by (simp add: getitem_def setitem_def update_conv')

lemma nrows_setitem [simp]: "nrows (setitem f c s) = nrows f"
  by (simp add: setitem_def)

lemma slen_take_rows [simp]: "slen (take_rows s is) = length is"
  by (cases s) simp_all

lemma slen_take_rows_opt [simp]: "slen (take_rows_opt s js) = length js"
  by (cases s) simp_all

lemma slen_to_numeric_series [simp]: "slen (to_numeric_series lib s) = slen s"
  by (cases s) simp_all

lemma slen_to_datetime [simp]: "slen (to_datetime lib s) = slen s"
  by (cases s) simp_all

lemma length_cells [simp]: "length (cells s) = slen s"
  by (cases s) simp_all

lemma map_nth_fun: "map (\<lambda>i. f (xs ! i)) [0..<length xs] = map f xs"
  by (rule nth_equalityI) auto

lemma length_matches: "length (matches rk k) = count_list rk k"
proof (induction rk rule: rev_induct)
  case Nil
  then show ?case by (simp add: matches_def)
next
  case (snoc x xs)
  have "filter (\<lambda>j. (xs @ [x]) ! j = k) [0..<length xs] = filter (\<lambda>j. xs ! j = k) [0..<length xs]"
    by (rule filter_cong) (auto simp: nth_append)
  with snoc show ?case by (simp add: matches_def)
qed

lemma length_left_join_indexer:
  "length (left_join_indexer lk rk) = sum_list (map (\<lambda>k. max 1 (count_list rk k)) lk)"
proof -
  have "length (left_join_indexer lk rk) =
        sum_list (map (\<lambda>i. (\<lambda>k. max 1 (length (matches rk k))) (lk ! i)) [0..<length lk])"
    unfolding left_join_indexer_def length_concat map_map
    by (rule arg_cong[where f = sum_list], rule map_cong) (auto split: list.splits)
  also have "\<dots> = sum_list (map (\<lambda>k. max 1 (length (matches rk k))) lk)"
    using map_nth_fun[of "\<lambda>k. max 1 (length (matches rk k))" lk] by simp
  finally show ?thesis by (simp add: length_matches)
qed

lemma length_rows_of [simp]: "length (rows_of n ss) = n"
  by (simp add: rows_of_def)

lemma pipeline_stages:
  assumes "merge_sso_with_collection_system lib P E = Inr (out, P', E')"
  shows "\<exists>E1 m0 df_summary.
           normalize_join_keys lib P E = Inr (P', E1) \<and>
           coordinate_cleanup lib E1 = Inr E' \<and>
           merge_left E' P' join_cols ([], ''_coll'') = Inr m0 \<and>
           drop_columns m0 join_cols = Inr (sso_events_with_collection_system out) \<and>
           parse_summary_columns lib (sso_events_with_collection_system out) = Inr df_summary \<and>
           groupby_agg df_summary = Inr (sso_summary_by_permit_year out) \<and>
           collection_system_permit_raw out = drop_ignore P join_cols \<and>
           sewer_overflow_bypass_event_raw out = drop_ignore E join_cols"
  using assms
  by (auto simp: merge_sso_with_collection_system_def Let_def ebind_eq_Inr split: prod.splits)

lemma key_rows_length: "key_rows f on = Inr ks \<Longrightarrow> length ks = nrows f"
  by (auto simp: key_rows_def ebind_eq_Inr)

lemma merge_left_nrows:
  assumes "merge_left l r on sfx = Inr m" "key_rows l on = Inr lk" "key_rows r on = Inr rk"
  shows "nrows m = length (left_join_indexer lk rk)"
  using assms by (auto simp: merge_left_def Let_def ebind_eq_Inr split: if_splits)

lemma drop_columns_nrows: "drop_columns f cs = Inr g \<Longrightarrow> nrows g = nrows f"
  by (auto simp: drop_columns_def drop_ignore_def split: list.splits)

lemma set_join_key_nrows: "set_join_key lib f d s = Inr g \<Longrightarrow> nrows g = nrows f"
  by (auto simp: set_join_key_def ebind_eq_Inr)

lemma normalize_join_keys_nrows:
  "normalize_join_keys lib P E = Inr (P', E') \<Longrightarrow> nrows P' = nrows P \<and> nrows E' = nrows E"
  by (auto simp: normalize_join_keys_def ebind_eq_Inr dest!: set_join_key_nrows)

lemma nrows_setitem_value [simp]: "nrows (setitem_value f c v) = nrows f"
  by (cases v) (simp_all add: setitem_value_def)

lemma loc_negate_nrows: "loc_negate f sel cs = Inr g \<Longrightarrow> nrows g = nrows f"
  by (induction cs arbitrary: f) (auto simp: ebind_eq_Inr)

lemma coordinate_cleanup_nrows: "coordinate_cleanup lib E = Inr E' \<Longrightarrow> nrows E' = nrows E"
  by (auto simp: coordinate_cleanup_def Let_def ebind_eq_Inr dest!: loc_negate_nrows)

lemma sum_list_max1_ge: "length ks \<le> sum_list (map (\<lambda>k. max 1 (count_list pk k)) ks)"
  by (induction ks) auto

lemma count_list_distinct_le1: "distinct xs \<Longrightarrow> count_list xs k \<le> 1"
  by (induction xs) (auto simp: count_list_0_iff)

lemma sum_list_max1_distinct:
  "distinct pk \<Longrightarrow> sum_list (map (\<lambda>k. max 1 (count_list pk k)) ks) = length ks"
proof (induction ks)
  case Nil
  then show ?case by simp
next
  case (Cons k ks)
  from count_list_distinct_le1[OF Cons.prems, of k] have "max 1 (count_list pk k) = 1" by simp
  with Cons show ?case by simp
qed

subsection \<open>Groups and their rows\<close>

lemma set_insert_key [simp]: "set (insert_key k gs) = insert k (set gs)"
  by (induction gs) auto

lemma distinct_insert_key [simp]: "distinct (insert_key k gs) = (k \<notin> set gs \<and> distinct gs)"
  by (induction gs) auto

lemma set_sort_keys [simp]: "set (sort_keys ks) = set ks"
  by (induction ks) (simp_all add: sort_keys_def)

lemma distinct_sort_keys [simp]: "distinct (sort_keys ks) = distinct ks"
  by (induction ks) (simp_all add: sort_keys_def del: set_sort_keys add: set_sort_keys[unfolded sort_keys_def])

lemma set_group_keys [simp]: "set (group_keys keys) = set keys"
  by (simp add: group_keys_def)

lemma distinct_group_keys [simp]: "distinct (group_keys keys)"
  by (simp add: group_keys_def)

lemma set_group_rows: "set (group_rows keys g) = {i. i < length keys \<and> keys ! i = g}"
  by (auto simp: group_rows_def)

lemma distinct_group_rows [simp]: "distinct (group_rows keys g)"
  by (simp add: group_rows_def)

lemma group_rows_nonempty: "g \<in> set keys \<Longrightarrow> group_rows keys g \<noteq> []"
proof -
  assume "g \<in> set keys"
  then obtain i where "i < length keys" "keys ! i = g" by (auto simp: in_set_conv_nth)
  then have "i \<in> set (group_rows keys g)" by (simp add: set_group_rows)
  then show ?thesis by auto
qed

lemma hd_group_rows:
  assumes "g \<in> set keys"
  shows "hd (group_rows keys g) < length keys \<and> keys ! hd (group_rows keys g) = g"
proof -
  from group_rows_nonempty[OF assms] have "hd (group_rows keys g) \<in> set (group_rows keys g)"
    by simp
  then show ?thesis by (simp add: set_group_rows)
qed

lemma unique_group:
  assumes "i < length keys"
  shows "\<exists>!g. g < length (group_keys keys) \<and> group_keys keys ! g = keys ! i"
proof -
  have "keys ! i \<in> set (group_keys keys)" using assms by simp
  then obtain g where g: "g < length (group_keys keys)" "group_keys keys ! g = keys ! i"
    unfolding in_set_conv_nth by blast
  show ?thesis
  proof (rule ex1I[of _ g])
    show "g < length (group_keys keys) \<and> group_keys keys ! g = keys ! i" using g by simp
  next
    fix h assume "h < length (group_keys keys) \<and> group_keys keys ! h = keys ! i"
    with g show "h = g"
      using distinct_group_keys[of keys] nth_eq_iff_index_eq[of "group_keys keys" h g] by simp
  qed
qed

lemma cells_take_rows:
  assumes "\<forall>i\<in>set is. i < slen s"
  shows "cells (take_rows s is) = map (\<lambda>i. cells s ! i) is"
  using assms by (cases s) auto

lemma sum_list_somes: "sum_list (somes xs) = sum_list (map (\<lambda>x. case x of None \<Rightarrow> 0 | Some r \<Rightarrow> r) xs)"
  by (induction xs) (auto simp: somes_def split: option.splits)

lemma nunique_card: "nunique cs = card (set cs - {Null})"
proof -
  have "set (filter (\<lambda>c. c \<noteq> Null) cs) = set cs - {Null}" by auto
  then show ?thesis by (simp add: nunique_def length_remdups_card_conv)
qed

lemma get_columns_length: "get_columns f cs = Inr ss \<Longrightarrow> length ss = length cs"
  by (induction cs arbitrary: ss) (auto simp: ebind_eq_Inr)

lemma get_columns_nth:
  "get_columns f cs = Inr ss \<Longrightarrow> i < length cs \<Longrightarrow> getitem f (cs ! i) = Inr (ss ! i)"
proof (induction cs arbitrary: ss i)
  case Nil
  then show ?case by simp
next
  case (Cons c cs)
  then show ?case by (cases i) (auto simp: ebind_eq_Inr)
qed

lemma get_columns_eqI:
  "length ss = length cs \<Longrightarrow> (\<And>i. i < length cs \<Longrightarrow> getitem f (cs ! i) = Inr (ss ! i)) \<Longrightarrow>
   get_columns f cs = Inr ss"
proof (induction cs arbitrary: ss)
  case Nil
  then show ?case by simp
next
  case (Cons c cs)
  then obtain s ss' where ss: "ss = s # ss'" by (cases ss) auto
  from Cons.prems(2)[of 0] ss have h: "getitem f c = Inr s" by simp
  have "get_columns f cs = Inr ss'"
  proof (rule Cons.IH)
    show "length ss' = length cs" using Cons.prems(1) ss by simp
  next
    fix i assume "i < length cs"
    then show "getitem f (cs ! i) = Inr (ss' ! i)" using Cons.prems(2)[of "Suc i"] ss by simp
  qed
  with h ss show ?case by simp
qed

lemma lens_ok_getitem: "lens_ok f \<Longrightarrow> getitem f c = Inr s \<Longrightarrow> slen s = nrows f"
  by (auto simp: lens_ok_def getitem_def list_all_iff split: option.splits dest!: map_of_SomeD)

lemma list_all_update:
  "list_all Q al \<Longrightarrow> Q (k, v) \<Longrightarrow> list_all Q (AList.update k v al)"
  by (induction al) auto

lemma lens_ok_setitem: "lens_ok f \<Longrightarrow> slen s = nrows f \<Longrightarrow> lens_ok (setitem f c s)"
  by (simp add: lens_ok_def setitem_def list_all_update)

lemma lens_ok_drop_ignore: "lens_ok f \<Longrightarrow> lens_ok (drop_ignore f cs)"
  by (auto simp: lens_ok_def drop_ignore_def list_all_iff)

lemma lens_ok_drop_columns: "lens_ok f \<Longrightarrow> drop_columns f cs = Inr g \<Longrightarrow> lens_ok g"
  by (auto simp: drop_columns_def lens_ok_drop_ignore split: list.splits)

lemma lens_ok_merge_left: "merge_left l r on sfx = Inr m \<Longrightarrow> lens_ok m"
  by (auto simp: merge_left_def Let_def ebind_eq_Inr lens_ok_def list_all_iff split: if_splits)

lemma get_columns_slen:
  "lens_ok f \<Longrightarrow> get_columns f cs = Inr ss \<Longrightarrow> \<forall>s\<in>set ss. slen s = nrows f"
proof (induction cs arbitrary: ss)
  case Nil
  then show ?case by simp
next
  case (Cons c cs)
  then show ?case by (auto simp: ebind_eq_Inr dest: lens_ok_getitem)
qed

lemma rows_of_nth: "i < n \<Longrightarrow> rows_of n ss ! i = map (\<lambda>s. cells s ! i) ss"
  by (simp add: rows_of_def)

lemma rows_of_take_rows:
  assumes len: "\<forall>s\<in>set ss. slen s = n"
    and sub: "set gs \<subseteq> set (rows_of n ss)"
  shows "rows_of (length gs)
           (map (\<lambda>s. take_rows s (map hd (map (group_rows (rows_of n ss)) gs))) ss) = gs"
proof (rule nth_equalityI)
  show "length (rows_of (length gs)
           (map (\<lambda>s. take_rows s (map hd (map (group_rows (rows_of n ss)) gs))) ss)) = length gs"
    by simp
next
  fix g assume "g < length (rows_of (length gs)
           (map (\<lambda>s. take_rows s (map hd (map (group_rows (rows_of n ss)) gs))) ss))"
  then have g: "g < length gs" by simp
  let ?keys = "rows_of n ss"
  let ?reps = "map hd (map (group_rows ?keys) gs)"
  have in_keys: "\<And>k. k \<in> set gs \<Longrightarrow> k \<in> set ?keys" using sub by auto
  have reps_lt: "\<forall>i\<in>set ?reps. i < n"
    using hd_group_rows[OF in_keys] by auto
  have rep_g: "?reps ! g < n \<and> ?keys ! (?reps ! g) = gs ! g"
    using hd_group_rows[OF in_keys, of "gs ! g"] g by simp
  have "rows_of (length gs) (map (\<lambda>s. take_rows s ?reps) ss) ! g
          = map (\<lambda>s. cells (take_rows s ?reps) ! g) ss"
    using g by (simp add: rows_of_nth comp_def)
  also have "\<dots> = map (\<lambda>s. cells s ! (?reps ! g)) ss"
  proof (rule map_cong[OF refl])
    fix s assume s: "s \<in> set ss"
    then have "\<forall>i\<in>set ?reps. i < slen s" using reps_lt len by simp
    from cells_take_rows[OF this] g show "cells (take_rows s ?reps) ! g = cells s ! (?reps ! g)"
      by simp
  qed
  also have "\<dots> = ?keys ! (?reps ! g)"
    by (rule rows_of_nth[symmetric], rule conjunct1[OF rep_g])
  also have "\<dots> = gs ! g" by (rule conjunct2[OF rep_g])
  finally show "rows_of (length gs) (map (\<lambda>s. take_rows s ?reps) ss) ! g = gs ! g" .
qed

lemma get_columns_group_cols:
  assumes "get_columns f summary_group_cols = Inr kcols"
  shows "\<exists>k1 k2 k3 k4 k5 k6. kcols = [k1, k2, k3, k4, k5, k6] \<and>
           getitem f ''permit_identifier'' = Inr k1 \<and>
           getitem f ''collection_system_identifier'' = Inr k2 \<and>
           getitem f ''collection_system_name'' = Inr k3 \<and>
           getitem f ''collection_system_owner_type_desc'' = Inr k4 \<and>
           getitem f ''collection_system_population'' = Inr k5 \<and>
           getitem f ''year'' = Inr k6"
  using assms by (auto simp: summary_group_cols_def ebind_eq_Inr)

lemma groupby_agg_result:
  assumes ga: "groupby_agg df = Inr s" and ok: "lens_ok df"
  shows "\<exists>kcols ek vol st en total_volume first_event last_event.
           get_columns df summary_group_cols = Inr kcols \<and>
           getitem df ''sewer_overflow_bypass_event_key'' = Inr ek \<and>
           getitem df ''sso_volume_gal'' = Inr vol \<and>
           getitem df ''sso_start_dt'' = Inr st \<and>
           getitem df ''sso_end_dt'' = Inr en \<and>
           agg_sum vol (map (group_rows (rows_of (nrows df) kcols))
                           (group_keys (rows_of (nrows df) kcols))) = Inr total_volume \<and>
           agg_min st (map (group_rows (rows_of (nrows df) kcols))
                           (group_keys (rows_of (nrows df) kcols))) = Inr first_event \<and>
           agg_max en (map (group_rows (rows_of (nrows df) kcols))
                           (group_keys (rows_of (nrows df) kcols))) = Inr last_event \<and>
           nrows s = length (group_keys (rows_of (nrows df) kcols)) \<and>
           key_rows s summary_group_cols = Inr (group_keys (rows_of (nrows df) kcols)) \<and>
           getitem s ''sso_event_count''
             = Inr (agg_nunique ek (map (group_rows (rows_of (nrows df) kcols))
                                        (group_keys (rows_of (nrows df) kcols)))) \<and>
           getitem s ''sso_total_volume_gal'' = Inr total_volume \<and>
           getitem s ''sso_first_event'' = Inr first_event \<and>
           getitem s ''sso_last_event'' = Inr last_event"
proof -
  from ga obtain kcols ek vol st en total_volume first_event last_event where
    kc: "get_columns df summary_group_cols = Inr kcols" and
    ek: "getitem df ''sewer_overflow_bypass_event_key'' = Inr ek" and
    vol: "getitem df ''sso_volume_gal'' = Inr vol" and
    st: "getitem df ''sso_start_dt'' = Inr st" and
    en: "getitem df ''sso_end_dt'' = Inr en" and
    tv: "agg_sum vol (map (group_rows (rows_of (nrows df) kcols))
                           (group_keys (rows_of (nrows df) kcols))) = Inr total_volume" and
    fe: "agg_min st (map (group_rows (rows_of (nrows df) kcols))
                           (group_keys (rows_of (nrows df) kcols))) = Inr first_event" and
    le: "agg_max en (map (group_rows (rows_of (nrows df) kcols))
                           (group_keys (rows_of (nrows df) kcols))) = Inr last_event" and
    s: "s = \<lparr>nrows = length (map (group_rows (rows_of (nrows df) kcols))
                                (group_keys (rows_of (nrows df) kcols))),
             columns =
               map (\<lambda>(c, s). (c, take_rows s (map hd (map (group_rows (rows_of (nrows df) kcols))
                                (group_keys (rows_of (nrows df) kcols))))))
                   (zip summary_group_cols kcols) @
               [(''sso_event_count'', agg_nunique ek (map (group_rows (rows_of (nrows df) kcols))
                                (group_keys (rows_of (nrows df) kcols)))),
                (''sso_total_volume_gal'', total_volume),
                (''sso_first_event'', first_event),
                (''sso_last_event'', last_event)]\<rparr>"
    unfolding groupby_agg_def Let_def ebind_eq_Inr by blast
  let ?keys = "rows_of (nrows df) kcols"
  let ?reps = "map hd (map (group_rows ?keys) (group_keys ?keys))"
  from get_columns_group_cols[OF kc] obtain k1 k2 k3 k4 k5 k6 where
    k: "kcols = [k1, k2, k3, k4, k5, k6]" by blast
  have gc: "get_columns s summary_group_cols = Inr (map (\<lambda>k. take_rows k ?reps) kcols)"
    unfolding s k by (simp add: summary_group_cols_def getitem_def)
  have "rows_of (length (group_keys ?keys)) (map (\<lambda>k. take_rows k ?reps) kcols) = group_keys ?keys"
    by (rule rows_of_take_rows) (use get_columns_slen[OF ok kc] in auto)
  then have kr: "key_rows s summary_group_cols = Inr (group_keys ?keys)"
    using gc by (simp add: key_rows_def s)
  have n: "nrows s = length (group_keys ?keys)" by (simp add: s)
  have c1: "getitem s ''sso_event_count''
             = Inr (agg_nunique ek (map (group_rows ?keys) (group_keys ?keys)))"
    unfolding s k by (simp add: summary_group_cols_def getitem_def)
  have c2: "getitem s ''sso_total_volume_gal'' = Inr total_volume"
    unfolding s k by (simp add: summary_group_cols_def getitem_def)
  have c3: "getitem s ''sso_first_event'' = Inr first_event"
    unfolding s k by (simp add: summary_group_cols_def getitem_def)
  have c4: "getitem s ''sso_last_event'' = Inr last_event"
    unfolding s k by (simp add: summary_group_cols_def getitem_def)
  from kc ek vol st en tv fe le n kr c1 c2 c3 c4 show ?thesis by blast
qed

lemma to_datetime_TimeS: "\<exists>ts. to_datetime lib s = TimeS ts"
  by (cases s) simp_all

lemma to_numeric_series_NumS: "\<exists>xs. to_numeric_series lib s = NumS xs"
  by (cases s) simp_all

lemma parse_summary_columns_result:
  assumes ps: "parse_summary_columns lib m = Inr df"
  shows "\<exists>start en vol y.
           getitem m ''sewer_overflow_bypass_start_datetime'' = Inr start \<and>
           getitem m ''sewer_overflow_bypass_end_datetime'' = Inr en \<and>
           getitem m ''sewer_overflow_bypass_discharge_volume_gallons'' = Inr vol \<and>
           dt_year lib (to_datetime lib start) = Inr y \<and>
           df = setitem (setitem (setitem (setitem m ''sso_start_dt'' (to_datetime lib start))
                  ''sso_end_dt'' (to_datetime lib en))
                  ''sso_volume_gal'' (to_numeric_series lib vol)) ''year'' y"
  using ps
  by (auto simp: parse_summary_columns_def Let_def ebind_eq_Inr to_numeric_def setitem_value_def)

lemma slen_dt_year: "dt_year lib s = Inr y \<Longrightarrow> slen y = slen s"
  by (cases s) auto

lemma parse_summary_columns_lens_ok:
  assumes ps: "parse_summary_columns lib m = Inr df" and ok: "lens_ok m"
  shows "lens_ok df \<and> nrows df = nrows m"
proof -
  from parse_summary_columns_result[OF ps] obtain start en vol y where
    a: "getitem m ''sewer_overflow_bypass_start_datetime'' = Inr start" and
    b: "getitem m ''sewer_overflow_bypass_end_datetime'' = Inr en" and
    c: "getitem m ''sewer_overflow_bypass_discharge_volume_gallons'' = Inr vol" and
    d: "dt_year lib (to_datetime lib start) = Inr y" and
    df: "df = setitem (setitem (setitem (setitem m ''sso_start_dt'' (to_datetime lib start))
                  ''sso_end_dt'' (to_datetime lib en))
                  ''sso_volume_gal'' (to_numeric_series lib vol)) ''year'' y"
    by blast
  have "slen y = nrows m" using slen_dt_year[OF d] lens_ok_getitem[OF ok a] by simp
  then show ?thesis
    unfolding df
    using lens_ok_getitem[OF ok a] lens_ok_getitem[OF ok b] lens_ok_getitem[OF ok c] ok
    by (simp add: lens_ok_setitem)
qed

lemma merged_lens_ok:
  assumes run: "merge_sso_with_collection_system lib P E = Inr (out, P', E')"
  shows "lens_ok (sso_events_with_collection_system out)"
proof -
  from pipeline_stages[OF run] obtain m0 where
    ml: "merge_left E' P' join_cols ([], ''_coll'') = Inr m0" and
    dc: "drop_columns m0 join_cols = Inr (sso_events_with_collection_system out)"
    by blast
  from lens_ok_drop_columns[OF lens_ok_merge_left[OF ml] dc] show ?thesis .
qed

text \<open>The summary stage of a run, with everything the claims about the summary need.\<close>

lemma summary_stage:
  assumes run: "merge_sso_with_collection_system lib P E = Inr (out, P', E')"
  shows "\<exists>df_summary keys.
           parse_summary_columns lib (sso_events_with_collection_system out) = Inr df_summary \<and>
           groupby_agg df_summary = Inr (sso_summary_by_permit_year out) \<and>
           lens_ok df_summary \<and>
           nrows df_summary = nrows (sso_events_with_collection_system out) \<and>
           key_rows df_summary summary_group_cols = Inr keys \<and>
           length keys = nrows (sso_events_with_collection_system out) \<and>
           key_rows (sso_summary_by_permit_year out) summary_group_cols = Inr (group_keys keys) \<and>
           nrows (sso_summary_by_permit_year out) = length (group_keys keys)"
proof -
  from pipeline_stages[OF run] obtain df_summary where
    ps: "parse_summary_columns lib (sso_events_with_collection_system out) = Inr df_summary" and
    ga: "groupby_agg df_summary = Inr (sso_summary_by_permit_year out)"
    by blast
  from parse_summary_columns_lens_ok[OF ps merged_lens_ok[OF run]] have
    ok: "lens_ok df_summary" and n: "nrows df_summary = nrows (sso_events_with_collection_system out)"
    by simp_all
  from groupby_agg_result[OF ga ok] obtain kcols where
    kc: "get_columns df_summary summary_group_cols = Inr kcols" and
    ns: "nrows (sso_summary_by_permit_year out) = length (group_keys (rows_of (nrows df_summary) kcols))" and
    kr: "key_rows (sso_summary_by_permit_year out) summary_group_cols
           = Inr (group_keys (rows_of (nrows df_summary) kcols))"
    by blast
  have k: "key_rows df_summary summary_group_cols = Inr (rows_of (nrows df_summary) kcols)"
    using kc by (simp add: key_rows_def)
  from ps ga ok n k kr ns show ?thesis by (intro exI[of _ df_summary] exI[of _ "rows_of (nrows df_summary) kcols"]) simp
qed

lemma summary_all:
  assumes run: "merge_sso_with_collection_system lib P E = Inr (out, P', E')"
  shows "\<exists>df_summary k1 k2 k3 k4 k5 y start en vol ek total_volume first_event last_event.
           parse_summary_columns lib (sso_events_with_collection_system out) = Inr df_summary \<and>
           nrows df_summary = nrows (sso_events_with_collection_system out) \<and>
           getitem (sso_events_with_collection_system out) ''permit_identifier'' = Inr k1 \<and>
           getitem (sso_events_with_collection_system out) ''collection_system_identifier'' = Inr k2 \<and>
           getitem (sso_events_with_collection_system out) ''collection_system_name'' = Inr k3 \<and>
           getitem (sso_events_with_collection_system out) ''collection_system_owner_type_desc'' = Inr k4 \<and>
           getitem (sso_events_with_collection_system out) ''collection_system_population'' = Inr k5 \<and>
           getitem (sso_events_with_collection_system out) ''sewer_overflow_bypass_start_datetime'' = Inr start \<and>
           getitem (sso_events_with_collection_system out) ''sewer_overflow_bypass_end_datetime'' = Inr en \<and>
           getitem (sso_events_with_collection_system out)
             ''sewer_overflow_bypass_discharge_volume_gallons'' = Inr vol \<and>
           getitem (sso_events_with_collection_system out) ''sewer_overflow_bypass_event_key'' = Inr ek \<and>
           dt_year lib (to_datetime lib start) = Inr y \<and>
           slen k1 = nrows (sso_events_with_collection_system out) \<and>
           slen k2 = nrows (sso_events_with_collection_system out) \<and>
           slen k3 = nrows (sso_events_with_collection_system out) \<and>
           slen k4 = nrows (sso_events_with_collection_system out) \<and>
           slen k5 = nrows (sso_events_with_collection_system out) \<and>
           slen y = nrows (sso_events_with_collection_system out) \<and>
           slen start = nrows (sso_events_with_collection_system out) \<and>
           slen en = nrows (sso_events_with_collection_system out) \<and>
           slen vol = nrows (sso_events_with_collection_system out) \<and>
           slen ek = nrows (sso_events_with_collection_system out) \<and>
           key_rows df_summary summary_group_cols
             = Inr (rows_of (nrows (sso_events_with_collection_system out)) [k1, k2, k3, k4, k5, y]) \<and>
           key_rows (sso_summary_by_permit_year out) summary_group_cols
             = Inr (group_keys (rows_of (nrows (sso_events_with_collection_system out))
                                  [k1, k2, k3, k4, k5, y])) \<and>
           nrows (sso_summary_by_permit_year out)
             = length (group_keys (rows_of (nrows (sso_events_with_collection_system out))
                                  [k1, k2, k3, k4, k5, y])) \<and>
           getitem (sso_summary_by_permit_year out) ''sso_event_count''
             = Inr (agg_nunique ek
                 (map (group_rows (rows_of (nrows (sso_events_with_collection_system out))
                                     [k1, k2, k3, k4, k5, y]))
                      (group_keys (rows_of (nrows (sso_events_with_collection_system out))
                                     [k1, k2, k3, k4, k5, y])))) \<and>
           agg_sum (to_numeric_series lib vol)
                 (map (group_rows (rows_of (nrows (sso_events_with_collection_system out))
                                     [k1, k2, k3, k4, k5, y]))
                      (group_keys (rows_of (nrows (sso_events_with_collection_system out))
                                     [k1, k2, k3, k4, k5, y]))) = Inr total_volume \<and>
           getitem (sso_summary_by_permit_year out) ''sso_total_volume_gal'' = Inr total_volume \<and>
           agg_min (to_datetime lib start)
                 (map (group_rows (rows_of (nrows (sso_events_with_collection_system out))
                                     [k1, k2, k3, k4, k5, y]))
                      (group_keys (rows_of (nrows (sso_events_with_collection_system out))
                                     [k1, k2, k3, k4, k5, y]))) = Inr first_event \<and>
           getitem (sso_summary_by_permit_year out) ''sso_first_event'' = Inr first_event \<and>
           agg_max (to_datetime lib en)
                 (map (group_rows (rows_of (nrows (sso_events_with_collection_system out))
                                     [k1, k2, k3, k4, k5, y]))
                      (group_keys (rows_of (nrows (sso_events_with_collection_system out))
                                     [k1, k2, k3, k4, k5, y]))) = Inr last_event \<and>
           getitem (sso_summary_by_permit_year out) ''sso_last_event'' = Inr last_event"
proof -
  let ?m = "sso_events_with_collection_system out"
  from pipeline_stages[OF run] obtain df where
    ps: "parse_summary_columns lib ?m = Inr df" and
    ga: "groupby_agg df = Inr (sso_summary_by_permit_year out)"
    by blast
  note mok = merged_lens_ok[OF run]
  from parse_summary_columns_lens_ok[OF ps mok] have
    ok: "lens_ok df" and n: "nrows df = nrows ?m" by simp_all
  from parse_summary_columns_result[OF ps] obtain start en vol y where
    a: "getitem ?m ''sewer_overflow_bypass_start_datetime'' = Inr start" and
    b: "getitem ?m ''sewer_overflow_bypass_end_datetime'' = Inr en" and
    c: "getitem ?m ''sewer_overflow_bypass_discharge_volume_gallons'' = Inr vol" and
    d: "dt_year lib (to_datetime lib start) = Inr y" and
    df: "df = setitem (setitem (setitem (setitem ?m ''sso_start_dt'' (to_datetime lib start))
                  ''sso_end_dt'' (to_datetime lib en))
                  ''sso_volume_gal'' (to_numeric_series lib vol)) ''year'' y"
    by blast
  from groupby_agg_result[OF ga ok] obtain kcols ek vol' st' en' total_volume first_event last_event
    where
    kc: "get_columns df summary_group_cols = Inr kcols" and
    ek: "getitem df ''sewer_overflow_bypass_event_key'' = Inr ek" and
    vol': "getitem df ''sso_volume_gal'' = Inr vol'" and
    st': "getitem df ''sso_start_dt'' = Inr st'" and
    en': "getitem df ''sso_end_dt'' = Inr en'" and
    tv: "agg_sum vol' (map (group_rows (rows_of (nrows df) kcols))
                           (group_keys (rows_of (nrows df) kcols))) = Inr total_volume" and
    fe: "agg_min st' (map (group_rows (rows_of (nrows df) kcols))
                           (group_keys (rows_of (nrows df) kcols))) = Inr first_event" and
    le: "agg_max en' (map (group_rows (rows_of (nrows df) kcols))
                           (group_keys (rows_of (nrows df) kcols))) = Inr last_event" and
    ns: "nrows (sso_summary_by_permit_year out) = length (group_keys (rows_of (nrows df) kcols))" and
    kr: "key_rows (sso_summary_by_permit_year out) summary_group_cols
           = Inr (group_keys (rows_of (nrows df) kcols))" and
    c1: "getitem (sso_summary_by_permit_year out) ''sso_event_count''
             = Inr (agg_nunique ek (map (group_rows (rows_of (nrows df) kcols))
                                        (group_keys (rows_of (nrows df) kcols))))" and
    c2: "getitem (sso_summary_by_permit_year out) ''sso_total_volume_gal'' = Inr total_volume" and
    c3: "getitem (sso_summary_by_permit_year out) ''sso_first_event'' = Inr first_event" and
    c4: "getitem (sso_summary_by_permit_year out) ''sso_last_event'' = Inr last_event"
    by blast
  from get_columns_group_cols[OF kc] obtain k1 k2 k3 k4 k5 k6 where
    k: "kcols = [k1, k2, k3, k4, k5, k6]" and
    g1: "getitem df ''permit_identifier'' = Inr k1" and
    g2: "getitem df ''collection_system_identifier'' = Inr k2" and
    g3: "getitem df ''collection_system_name'' = Inr k3" and
    g4: "getitem df ''collection_system_owner_type_desc'' = Inr k4" and
    g5: "getitem df ''collection_system_population'' = Inr k5" and
    g6: "getitem df ''year'' = Inr k6"
    by blast
  have h1: "getitem ?m ''permit_identifier'' = Inr k1" using g1 unfolding df by simp
  have h2: "getitem ?m ''collection_system_identifier'' = Inr k2" using g2 unfolding df by simp
  have h3: "getitem ?m ''collection_system_name'' = Inr k3" using g3 unfolding df by simp
  have h4: "getitem ?m ''collection_system_owner_type_desc'' = Inr k4" using g4 unfolding df by simp
  have h5: "getitem ?m ''collection_system_population'' = Inr k5" using g5 unfolding df by simp
  have h6: "k6 = y" using g6 unfolding df by simp
  have hek: "getitem ?m ''sewer_overflow_bypass_event_key'' = Inr ek" using ek unfolding df by simp
  have hvol: "vol' = to_numeric_series lib vol" using vol' unfolding df by simp
  have hst: "st' = to_datetime lib start" using st' unfolding df by simp
  have hen: "en' = to_datetime lib en" using en' unfolding df by simp
  note l1 = lens_ok_getitem[OF mok h1] and l2 = lens_ok_getitem[OF mok h2]
    and l3 = lens_ok_getitem[OF mok h3] and l4 = lens_ok_getitem[OF mok h4]
    and l5 = lens_ok_getitem[OF mok h5] and l7 = lens_ok_getitem[OF mok a]
    and l8 = lens_ok_getitem[OF mok b] and l9 = lens_ok_getitem[OF mok c]
    and l10 = lens_ok_getitem[OF mok hek]
  have l6: "slen y = nrows ?m" using slen_dt_year[OF d] l7 by simp
  have kd: "key_rows df summary_group_cols = Inr (rows_of (nrows ?m) [k1, k2, k3, k4, k5, y])"
    using kc k h6 n by (simp add: key_rows_def)
  show ?thesis
    apply (rule exI[of _ df], rule exI[of _ k1], rule exI[of _ k2], rule exI[of _ k3])
    apply (rule exI[of _ k4], rule exI[of _ k5], rule exI[of _ y], rule exI[of _ start])
    apply (rule exI[of _ en], rule exI[of _ vol], rule exI[of _ ek], rule exI[of _ total_volume])
    apply (rule exI[of _ first_event], rule exI[of _ last_event])
    using ps n h1 h2 h3 h4 h5 a b c hek d l1 l2 l3 l4 l5 l6 l7 l8 l9 l10 kd kr ns c1 tv c2 fe c3 le c4
    unfolding k h6 hvol hst hen n
    by (intro conjI) assumption+
qed

subsection \<open>Join keys and coordinate cleanup\<close>

lemma frame_get_setitem_other [simp]: "d \<noteq> c \<Longrightarrow> frame_get (setitem f c s) d = frame_get f d"
  by (simp add: frame_get_def setitem_def update_conv')

lemma getitem_frame_get: "getitem f c = (case frame_get f c of None \<Rightarrow> Inl (KeyError c) | Some s \<Rightarrow> Inr s)"
  by (simp add: getitem_def frame_get_def)

lemma to_numeric_series_nums: "to_numeric_series lib s = NumS (nums (to_numeric_series lib s))"
  by (cases s) simp_all

lemma setitem_value_to_numeric:
  "setitem_value f c (to_numeric lib (frame_get f c)) = setitem f c (NumS (numeric_column lib f c))"
  by (auto simp: setitem_value_def to_numeric_def numeric_column_def
           to_numeric_series_nums[symmetric] split: option.splits)

lemma length_nums_to_numeric [simp]: "length (nums (to_numeric_series lib s)) = slen s"
  by (cases s) simp_all

lemma length_numeric_column: "lens_ok f \<Longrightarrow> length (numeric_column lib f c) = nrows f"
  by (auto simp: numeric_column_def getitem_frame_get split: option.splits
           dest!: lens_ok_getitem[where c = c])

lemma numeric_column_setitem_other [simp]:
  "d \<noteq> c \<Longrightarrow> numeric_column lib (setitem f c s) d = numeric_column lib f d"
  by (simp add: numeric_column_def split: option.splits)

lemma coordinate_cleanup_eq:
  "coordinate_cleanup lib f =
     Inr (setitem (setitem (setitem (setitem (setitem f
            ''latitude_measure'' (NumS (numeric_column lib f ''latitude_measure'')))
            ''longitude_measure'' (NumS (numeric_column lib f ''longitude_measure'')))
            ''latitude_measure'' (NumS (lat_after (numeric_column lib f ''latitude_measure''))))
            ''longitude_measure'' (NumS (lon_mid (numeric_column lib f ''latitude_measure'')
                                                  (numeric_column lib f ''longitude_measure''))))
            ''longitude_measure'' (NumS (lon_after (numeric_column lib f ''latitude_measure'')
                                                    (numeric_column lib f ''longitude_measure''))))"
  unfolding coordinate_cleanup_def Let_def setitem_value_to_numeric
  by (simp add: lat_after_def lon_mid_def lon_after_def)

lemma corrected_row_nth:
  assumes "i < length la" "length lo = length la"
  shows "(lat_after la ! i, lon_after la lo ! i) = corrected_row (la ! i, lo ! i)"
proof -
  have a: "lat_after la ! i
             = (if (case la ! i of None \<Rightarrow> False | Some r \<Rightarrow> r < 0) then map_option uminus (la ! i) else la ! i)"
    using assms by (simp add: lat_after_def)
  have m: "lon_mid la lo ! i
             = (if (case la ! i of None \<Rightarrow> False | Some r \<Rightarrow> r < 0) then map_option uminus (lo ! i) else lo ! i)"
    using assms by (simp add: lon_mid_def)
  have l1: "length (lat_after la) = length la" by (simp add: lat_after_def)
  have l2: "length (lon_mid la lo) = length la" using assms by (simp add: lon_mid_def)
  have b: "lon_after la lo ! i
             = (if (case lat_after la ! i of None \<Rightarrow> False | Some r \<Rightarrow> 0 \<le> r) \<and>
                   (case lon_mid la lo ! i of None \<Rightarrow> False | Some r \<Rightarrow> 60 \<le> r \<and> r \<le> 110)
                then map_option uminus (lon_mid la lo ! i) else lon_mid la lo ! i)"
    using assms l1 l2 by (simp add: lon_after_def mask_and_def)
  show ?thesis
    unfolding a b m
    by (cases "la ! i"; cases "lo ! i")
       (auto simp: correct_coordinates_def rule_A_def rule_B_def)
qed

lemma normalized_StrS: "\<exists>xs. normalized lib s = Inr (StrS xs) \<and> length xs = slen s"
  by (cases s) (simp_all add: normalized_def)

lemma normalized_cells:
  "\<not> is_time s \<Longrightarrow> normalized lib s = Inr (StrS (map (\<lambda>c. Some (join_key lib c)) (cells s)))"
  by (cases s) (auto simp: normalized_def join_key_def split: option.splits)

lemma set_join_key_result:
  assumes "set_join_key lib f dst src = Inr g"
  shows "\<exists>s k. getitem f src = Inr s \<and> normalized lib s = Inr k \<and> g = setitem f dst k"
  using assms by (auto simp: set_join_key_def ebind_eq_Inr)

lemma normalize_join_keys_result:
  assumes "normalize_join_keys lib P E = Inr (P', E1)"
  shows "\<exists>p1 p2 e1 e2 kp1 kp2 ke1 ke2.
           getitem P ''permit_identifier'' = Inr p1 \<and>
           getitem P ''collection_system_identifier'' = Inr p2 \<and>
           getitem E ''permit_identifier'' = Inr e1 \<and>
           getitem E ''collection_system_identifier'' = Inr e2 \<and>
           normalized lib p1 = Inr kp1 \<and> normalized lib p2 = Inr kp2 \<and>
           normalized lib e1 = Inr ke1 \<and> normalized lib e2 = Inr ke2 \<and>
           P' = setitem (setitem P ''_permit_join'' kp1) ''_cs_join'' kp2 \<and>
           E1 = setitem (setitem E ''_permit_join'' ke1) ''_cs_join'' ke2"
  using assms
  by (auto simp: normalize_join_keys_def ebind_eq_Inr dest!: set_join_key_result)

lemma lens_ok_normalize_join_keys:
  assumes nk: "normalize_join_keys lib P E = Inr (P', E1)"
  shows "(lens_ok P \<longrightarrow> lens_ok P') \<and> (lens_ok E \<longrightarrow> lens_ok E1)"
proof -
  from normalize_join_keys_result[OF nk] obtain p1 p2 e1 e2 kp1 kp2 ke1 ke2 where
    g: "getitem P ''permit_identifier'' = Inr p1" "getitem P ''collection_system_identifier'' = Inr p2"
       "getitem E ''permit_identifier'' = Inr e1" "getitem E ''collection_system_identifier'' = Inr e2" and
    k: "normalized lib p1 = Inr kp1" "normalized lib p2 = Inr kp2"
       "normalized lib e1 = Inr ke1" "normalized lib e2 = Inr ke2" and
    P': "P' = setitem (setitem P ''_permit_join'' kp1) ''_cs_join'' kp2" and
    E1: "E1 = setitem (setitem E ''_permit_join'' ke1) ''_cs_join'' ke2"
    by blast
  have s: "slen kp1 = slen p1" "slen kp2 = slen p2" "slen ke1 = slen e1" "slen ke2 = slen e2"
    using k normalized_StrS[of lib p1] normalized_StrS[of lib p2]
      normalized_StrS[of lib e1] normalized_StrS[of lib e2] by auto
  show ?thesis
    unfolding P' E1 using g s
    by (auto intro!: lens_ok_setitem dest: lens_ok_getitem)
qed

lemma coordinate_cleanup_rows:
  assumes run: "merge_sso_with_collection_system lib P E = Inr (out, P', E')"
    and ok: "lens_ok E"
  shows "\<exists>la lo.
           getitem E' ''latitude_measure'' = Inr (NumS la) \<and>
           getitem E' ''longitude_measure'' = Inr (NumS lo) \<and>
           length la = nrows E \<and> length lo = nrows E \<and>
           (\<forall>i<nrows E.
              (la ! i, lo ! i)
                = corrected_row (numeric_column lib E ''latitude_measure'' ! i,
                                 numeric_column lib E ''longitude_measure'' ! i))"
proof -
  from pipeline_stages[OF run] obtain E1 where
    nk: "normalize_join_keys lib P E = Inr (P', E1)" and
    cc: "coordinate_cleanup lib E1 = Inr E'"
    by blast
  from normalize_join_keys_result[OF nk] obtain ke1 ke2 where
    E1: "E1 = setitem (setitem E ''_permit_join'' ke1) ''_cs_join'' ke2" by blast
  from lens_ok_normalize_join_keys[OF nk] ok have ok1: "lens_ok E1" by simp
  have n1: "nrows E1 = nrows E" by (simp add: E1)
  let ?A = "numeric_column lib E ''latitude_measure''"
  let ?B = "numeric_column lib E ''longitude_measure''"
  have A: "numeric_column lib E1 ''latitude_measure'' = ?A"
    and B: "numeric_column lib E1 ''longitude_measure'' = ?B"
    by (simp_all add: E1)
  have lA: "length ?A = nrows E" and lB: "length ?B = nrows E"
    using length_numeric_column[OF ok] by simp_all
  from cc have E': "getitem E' ''latitude_measure'' = Inr (NumS (lat_after ?A))"
    "getitem E' ''longitude_measure'' = Inr (NumS (lon_after ?A ?B))"
    unfolding coordinate_cleanup_eq A B by auto
  have l1: "length (lat_after ?A) = nrows E" using lA by (simp add: lat_after_def)
  have l2: "length (lon_after ?A ?B) = nrows E"
    using lA lB by (simp add: lon_after_def lon_mid_def lat_after_def mask_and_def)
  have row: "\<forall>i<nrows E. (lat_after ?A ! i, lon_after ?A ?B ! i) = corrected_row (?A ! i, ?B ! i)"
    using corrected_row_nth[of _ ?A ?B] lA lB by simp
  from E' l1 l2 row show ?thesis by blast
qed

subsection \<open>Normalized keys and the merged table\<close>

lemma isspace_upper_char [simp]: "isspace (upper_char c) = isspace c"
  by (auto simp: isspace_def upper_char_def Let_def)

lemma dropWhile_isspace_upper: "dropWhile isspace (upper s) = upper (dropWhile isspace s)"
  by (induction s) (simp_all add: upper_def)

lemma upper_rev: "upper (rev s) = rev (upper s)"
  by (simp add: upper_def rev_map)

lemma strip_upper: "strip (upper s) = upper (strip s)"
  by (simp add: strip_def dropWhile_isspace_upper upper_rev[symmetric])

lemma strip_spaces_around:
  assumes a: "\<forall>c\<in>set a. isspace c" and b: "\<forall>c\<in>set b. isspace c"
  shows "strip (a @ t @ b) = strip t"
proof -
  have 1: "dropWhile isspace (a @ t @ b) = dropWhile isspace (t @ b)"
    by (rule dropWhile_append2) (use a in auto)
  show ?thesis
  proof (cases "\<forall>c\<in>set t. isspace c")
    case True
    then have e: "dropWhile isspace (a @ t @ b) = []" "dropWhile isspace t = []"
      using a b by (simp_all add: dropWhile_eq_Nil_conv)
    show ?thesis by (simp only: strip_def e)
  next
    case False
    then obtain c where c: "c \<in> set t" "\<not> isspace c" by blast
    then have 2: "dropWhile isspace (t @ b) = dropWhile isspace t @ b"
      by (rule dropWhile_append1)
    have 3: "dropWhile isspace (rev b @ rev (dropWhile isspace t))
            = dropWhile isspace (rev (dropWhile isspace t))"
      by (rule dropWhile_append2) (use b in auto)
    show ?thesis by (simp only: strip_def 1 2 rev_append 3)
  qed
qed

lemma upper_strip_nan: "upper (strip ''nan'') = ''NAN''"
  by code_simp

lemma join_key_Null: "join_key lib Null = ''NAN''"
  by (simp add: join_key_def upper_strip_nan)

lemma join_key_invariant:
  assumes sp: "\<forall>c\<in>set (a @ b @ a' @ b'). isspace c" and up: "upper t = upper t'"
  shows "join_key lib (Str (a @ t @ b)) = join_key lib (Str (a' @ t' @ b'))"
proof -
  have "strip (a @ t @ b) = strip t" "strip (a' @ t' @ b') = strip t'"
    using sp by (auto intro: strip_spaces_around)
  then show ?thesis
    using up by (simp add: join_key_def strip_upper[symmetric])
qed

lemma set_matches: "set (matches rk k) = {j. j < length rk \<and> rk ! j = k}"
  by (auto simp: matches_def)

lemma matches_Nil_iff: "(matches rk k = []) = (k \<notin> set rk)"
proof -
  have "(matches rk k = []) = (set (matches rk k) = {})" by simp
  also have "\<dots> = (k \<notin> set rk)" by (auto simp: set_matches in_set_conv_nth)
  finally show ?thesis .
qed

lemma indexer_row:
  "(case ms of [] \<Rightarrow> [(i, None)] | j # js \<Rightarrow> map (\<lambda>j. (i, Some j)) (j # js))
     = (if ms = [] then [(i, None)] else map (\<lambda>j. (i, Some j)) ms)"
  by (cases ms) simp_all

lemma left_join_indexer_Some:
  "((i, Some j) \<in> set (left_join_indexer lk rk)) = (i < length lk \<and> j < length rk \<and> rk ! j = lk ! i)"
proof -
  have "((i, Some j) \<in> set (left_join_indexer lk rk))
          = (i < length lk \<and> j \<in> set (matches rk (lk ! i)))"
    unfolding left_join_indexer_def indexer_row by auto
  then show ?thesis by (simp add: set_matches)
qed

lemma left_join_indexer_None:
  "((i, None) \<in> set (left_join_indexer lk rk)) = (i < length lk \<and> lk ! i \<notin> set rk)"
proof -
  have "((i, None) \<in> set (left_join_indexer lk rk))
          = (i < length lk \<and> matches rk (lk ! i) = [])"
    unfolding left_join_indexer_def indexer_row by auto
  then show ?thesis by (simp add: matches_Nil_iff)
qed

lemma map_of_filter_keys:
  "map_of (filter (\<lambda>(k, v). Q k) xs) k = (if Q k then map_of xs k else None)"
  by (induction xs) auto

lemma map_of_map_values:
  "map_of (map (\<lambda>(k, v). (k, F v)) xs) k = map_option F (map_of xs k)"
  by (induction xs) auto

lemma map_fst_relabel: "map fst (map (\<lambda>(c, s). (g c, F s)) xs) = map (g \<circ> fst) xs"
  by (induction xs) auto

lemma getitem_drop_columns:
  "drop_columns f cs = Inr g \<Longrightarrow> c \<notin> set cs \<Longrightarrow> getitem g c = getitem f c"
  by (auto simp: drop_columns_def drop_ignore_def getitem_def map_of_filter_keys split: list.splits)

lemma merge_left_columns:
  assumes ml: "merge_left l r on ([], rs) = Inr m"
  shows "\<exists>lk rk. key_rows l on = Inr lk \<and> key_rows r on = Inr rk \<and>
           nrows m = length (left_join_indexer lk rk) \<and>
           (\<forall>c s. getitem l c = Inr s \<longrightarrow>
                  getitem m c = Inr (take_rows s (map fst (left_join_indexer lk rk)))) \<and>
           (\<forall>c s. getitem r c = Inr s \<and> c \<notin> set on \<and> c \<notin> set (names l) \<longrightarrow>
                  getitem m c = Inr (take_rows_opt s (map snd (left_join_indexer lk rk))))"
proof -
  let ?rcols = "filter (\<lambda>(c, s). c \<notin> set on) (columns r)"
  let ?ren = "filter (\<lambda>c. c \<in> set (map fst ?rcols)) (names l)"
  let ?rlabel = "\<lambda>c. if c \<in> set ?ren then c @ rs else c"
  from ml obtain lk where lk: "key_rows l on = Inr lk"
    by (cases "key_rows l on") (simp_all add: merge_left_def)
  from ml lk obtain rk where rk: "key_rows r on = Inr rk"
    by (cases "key_rows r on") (simp_all add: merge_left_def)
  have dm: "distinct (map (?rlabel \<circ> fst) ?rcols) \<and>
     m = \<lparr>nrows = length (left_join_indexer lk rk),
             columns =
               map (\<lambda>(c, s). (c, take_rows s (map fst (left_join_indexer lk rk)))) (columns l) @
               map (\<lambda>(c, s). (?rlabel c, take_rows_opt s (map snd (left_join_indexer lk rk))))
                 ?rcols\<rparr>"
    using ml unfolding merge_left_def lk rk ebind_Inr Let_def fst_conv snd_conv append_Nil2 if_cancel
    by (simp split: if_splits)
  then have dr: "distinct (map (?rlabel \<circ> fst) ?rcols)" and
    m: "m = \<lparr>nrows = length (left_join_indexer lk rk),
             columns =
               map (\<lambda>(c, s). (c, take_rows s (map fst (left_join_indexer lk rk)))) (columns l) @
               map (\<lambda>(c, s). (?rlabel c, take_rows_opt s (map snd (left_join_indexer lk rk))))
                 ?rcols\<rparr>"
    by blast+
  let ?I = "map fst (left_join_indexer lk rk)"
  let ?J = "map snd (left_join_indexer lk rk)"
  let ?L = "map (\<lambda>(c, s). (c, take_rows s ?I)) (columns l)"
  let ?R = "map (\<lambda>(c, s). (?rlabel c, take_rows_opt s ?J)) ?rcols"
  have left: "getitem m c = Inr (take_rows s ?I)" if "getitem l c = Inr s" for c s
  proof -
    from that have "map_of (columns l) c = Some s"
      by (simp add: getitem_def split: option.splits)
    then have "map_of ?L c = Some (take_rows s ?I)" by (simp add: map_of_map_values)
    then show ?thesis by (simp add: m getitem_def)
  qed
  have right: "getitem m c = Inr (take_rows_opt s ?J)"
    if g: "getitem r c = Inr s" and on: "c \<notin> set on" and nl: "c \<notin> set (names l)" for c s
  proof -
    from g have "map_of (columns r) c = Some s" by (simp add: getitem_def split: option.splits)
    then have "(c, s) \<in> set (columns r)" by (rule map_of_SomeD)
    with on have mem: "(c, s) \<in> set ?rcols" by simp
    have lab: "?rlabel c = c" using nl by simp
    have "(?rlabel c, take_rows_opt s ?J) \<in> set ?R" using mem by force
    then have inR: "(c, take_rows_opt s ?J) \<in> set ?R" unfolding lab .
    have "distinct (map fst ?R)"
      unfolding map_fst_relabel by (rule dr)
    from map_of_is_SomeI[OF this inR] have r: "map_of ?R c = Some (take_rows_opt s ?J)" .
    have "c \<notin> fst ` set ?L" using nl by (force simp: names_def)
    then have "map_of ?L c = None" by (simp add: map_of_eq_None_iff)
    with r show ?thesis by (simp add: m getitem_def map_add_def)
  qed
  have n: "nrows m = length (left_join_indexer lk rk)" by (simp add: m)
  from lk rk left right n show ?thesis by blast
qed

lemma csv_frame_getitem: "csv_frame f \<Longrightarrow> getitem f c = Inr s \<Longrightarrow> \<not> is_time s"
  by (auto simp: csv_frame_def getitem_def list_all_iff split: option.splits dest!: map_of_SomeD)

lemma cells_join_keys:
  "cells (StrS (map (\<lambda>c. Some (join_key lib c)) cs)) = map (\<lambda>c. Str (join_key lib c)) cs"
  by simp

lemma key_rows_join_cols:
  assumes "getitem f ''_permit_join'' = Inr a" "getitem f ''_cs_join'' = Inr b"
  shows "key_rows f join_cols = Inr (rows_of (nrows f) [a, b])"
  using assms by (simp add: key_rows_def join_cols_def)


subsection \<open>When the function returns\<close>

lemma map_of_None_names: "(map_of (columns f) c = None) = (c \<notin> set (names f))"
  by (simp add: names_def map_of_eq_None_iff)

lemma getitem_Inr_iff: "(\<exists>s. getitem f c = Inr s) = (c \<in> set (names f))"
  using map_of_None_names[of f c] by (cases "map_of (columns f) c") (auto simp: getitem_def)

lemma getitem_Inl_iff: "(getitem f c = Inl e) = (c \<notin> set (names f) \<and> e = KeyError c)"
  using map_of_None_names[of f c] by (cases "map_of (columns f) c") (auto simp: getitem_def)

lemma names_setitem:
  "names (setitem f c s) = (if c \<in> set (names f) then names f else names f @ [c])"
  by (simp add: names_def setitem_def update_keys)

lemma distinct_names_setitem: "distinct (names f) \<Longrightarrow> distinct (names (setitem f c s))"
  by (simp add: names_setitem)

lemma set_names_setitem: "set (names (setitem f c s)) = insert c (set (names f))"
  by (auto simp: names_setitem)

lemma relabel_distinct:
  assumes d: "distinct xs" and nc: "\<forall>c\<in>set xs. c @ rs \<notin> set xs"
  shows "distinct (map (\<lambda>c. if Q c then c @ rs else c) xs)"
proof -
  have "inj_on (\<lambda>c. if Q c then c @ rs else c) (set xs)"
  proof (rule inj_onI)
    fix c d assume c: "c \<in> set xs" and dd: "d \<in> set xs"
      and e: "(if Q c then c @ rs else c) = (if Q d then d @ rs else d)"
    show "c = d"
    proof (cases "Q c"; cases "Q d")
      assume "Q c" "\<not> Q d"
      with e have "c @ rs = d" by simp
      with nc c dd show ?thesis by auto
    next
      assume "\<not> Q c" "Q d"
      with e have "d @ rs = c" by simp
      with nc c dd show ?thesis by auto
    qed (use e in auto)
  qed
  with d show ?thesis by (simp add: distinct_map)
qed

lemma names_filter_columns:
  "map fst (filter (\<lambda>(c, s). Q c) cols) = filter Q (map fst cols)"
  by (induction cols) auto

lemma merge_left_ok:
  assumes lk: "key_rows l on = Inr lk" and rk: "key_rows r on = Inr rk"
    and dl: "distinct (names l)" and dr: "distinct (names r)"
    and nc: "\<forall>c\<in>set (names r). c \<notin> set on \<longrightarrow> c @ rs \<notin> set (names r)"
  shows "\<exists>m. merge_left l r on ([], rs) = Inr m"
proof -
  let ?rcols = "filter (\<lambda>(c, s). c \<notin> set on) (columns r)"
  let ?Q = "\<lambda>c. c \<in> set (filter (\<lambda>c. c \<in> set (map fst ?rcols)) (names l))"
  have rn: "map fst ?rcols = filter (\<lambda>c. c \<notin> set on) (names r)"
    by (simp add: names_filter_columns names_def)
  have "distinct (map (\<lambda>c. if ?Q c then c @ rs else c) (map fst ?rcols))"
    unfolding rn
    by (rule relabel_distinct) (use dr nc in auto)
  then have d2: "distinct (map ((\<lambda>c. if ?Q c then c @ rs else c) \<circ> fst) ?rcols)"
    by (simp add: comp_def)
  have "(\<lambda>c. if ?Q c then c @ [] else c) = (\<lambda>c. c)" by (rule ext) simp
  then have d1: "distinct (map (\<lambda>c. if ?Q c then c @ [] else c) (names l))"
    using dl by (simp only: map_ident)
  show ?thesis
    unfolding merge_left_def lk rk ebind_Inr Let_def fst_conv snd_conv
    using d1 d2 by simp
qed

lemma drop_columns_ok: "\<forall>c\<in>set cs. c \<in> set (names f) \<Longrightarrow> drop_columns f cs = Inr (drop_ignore f cs)"
proof -
  assume "\<forall>c\<in>set cs. c \<in> set (names f)"
  then have "filter (\<lambda>c. c \<notin> set (names f)) cs = []" by (simp add: filter_empty_conv)
  then show ?thesis by (simp add: drop_columns_def)
qed

lemma parse_summary_columns_ok:
  assumes "getitem m ''sewer_overflow_bypass_start_datetime'' = Inr start"
    "getitem m ''sewer_overflow_bypass_end_datetime'' = Inr en"
    "getitem m ''sewer_overflow_bypass_discharge_volume_gallons'' = Inr vol"
  shows "\<exists>df. parse_summary_columns lib m = Inr df"
proof -
  obtain ts where "to_datetime lib start = TimeS ts" using to_datetime_TimeS by blast
  then show ?thesis
    using assms
    by (simp add: parse_summary_columns_def Let_def to_numeric_def setitem_value_def)
qed

lemma get_columns_ok:
  "\<forall>c\<in>set cs. c \<in> set (names f) \<Longrightarrow> \<exists>ss. get_columns f cs = Inr ss"
proof (induction cs)
  case Nil
  then show ?case by simp
next
  case (Cons c cs)
  then obtain ss where "get_columns f cs = Inr ss" by auto
  moreover from Cons.prems obtain s where "getitem f c = Inr s"
    using getitem_Inr_iff[of f c] by auto
  ultimately show ?case by simp
qed

lemma groupby_agg_ok:
  assumes kc: "\<forall>c\<in>set summary_group_cols. c \<in> set (names df)"
    and ek: "getitem df ''sewer_overflow_bypass_event_key'' = Inr ek"
    and vol: "getitem df ''sso_volume_gal'' = Inr (NumS v)"
    and st: "getitem df ''sso_start_dt'' = Inr (TimeS a)"
    and en: "getitem df ''sso_end_dt'' = Inr (TimeS b)"
  shows "\<exists>s. groupby_agg df = Inr s"
proof -
  from get_columns_ok[OF kc] obtain kcols where "get_columns df summary_group_cols = Inr kcols"
    by blast
  then show ?thesis
    using ek vol st en by (simp add: groupby_agg_def Let_def)
qed

lemma coordinate_cleanup_names:
  assumes cc: "coordinate_cleanup lib f = Inr g"
  shows "(distinct (names f) \<longrightarrow> distinct (names g)) \<and>
         set (names g) = set (names f) \<union> {''latitude_measure'', ''longitude_measure''} \<and>
         (\<forall>c. c \<noteq> ''latitude_measure'' \<and> c \<noteq> ''longitude_measure'' \<longrightarrow> getitem g c = getitem f c)"
  using cc unfolding coordinate_cleanup_eq
  by (auto simp: distinct_names_setitem set_names_setitem)

lemma suffix_not_join_col: "c @ ''_coll'' \<notin> set join_cols"
proof
  assume "c @ ''_coll'' \<in> set join_cols"
  then have "rev (c @ ''_coll'') = rev ''_permit_join'' \<or> rev (c @ ''_coll'') = rev ''_cs_join''"
    by (auto simp: join_cols_def)
  then show False by auto
qed

lemma run_succeeds:
  assumes ok: "tables_ok P E"
  shows "\<exists>out P' E'. merge_sso_with_collection_system lib P E = Inr (out, P', E')"
proof -
  from ok have dP: "distinct (names P)" and dE: "distinct (names E)"
    and nc: "\<forall>c\<in>set (names P). c @ ''_coll'' \<notin> set (names P)"
    and inP: "''permit_identifier'' \<in> set (names P)" "''collection_system_identifier'' \<in> set (names P)"
      "''collection_system_name'' \<in> set (names P)"
      "''collection_system_owner_type_desc'' \<in> set (names P)"
      "''collection_system_population'' \<in> set (names P)"
    and inE: "''permit_identifier'' \<in> set (names E)" "''collection_system_identifier'' \<in> set (names E)"
      "''sewer_overflow_bypass_event_key'' \<in> set (names E)"
      "''sewer_overflow_bypass_start_datetime'' \<in> set (names E)"
      "''sewer_overflow_bypass_end_datetime'' \<in> set (names E)"
      "''sewer_overflow_bypass_discharge_volume_gallons'' \<in> set (names E)"
    by (simp_all add: tables_ok_def required_permit_columns_def required_event_columns_def
          list_all_iff)
  have ex: "\<And>f c. c \<in> set (names f) \<Longrightarrow> \<exists>s. getitem f c = Inr s"
    by (simp add: getitem_Inr_iff)
  from ex[OF inP(1)] obtain p1 where g1: "getitem P ''permit_identifier'' = Inr p1" by blast
  from ex[OF inP(2)] obtain p2 where g2: "getitem P ''collection_system_identifier'' = Inr p2" by blast
  from ex[OF inE(1)] obtain e1 where g3: "getitem E ''permit_identifier'' = Inr e1" by blast
  from ex[OF inE(2)] obtain e2 where g4: "getitem E ''collection_system_identifier'' = Inr e2" by blast
  note g = g1 g2 g3 g4
  from normalized_StrS[of lib p1] obtain kp1 where k1: "normalized lib p1 = Inr kp1" by blast
  from normalized_StrS[of lib p2] obtain kp2 where k2: "normalized lib p2 = Inr kp2" by blast
  from normalized_StrS[of lib e1] obtain ke1 where k3: "normalized lib e1 = Inr ke1" by blast
  from normalized_StrS[of lib e2] obtain ke2 where k4: "normalized lib e2 = Inr ke2" by blast
  note k = k1 k2 k3 k4
  define P' where "P' = setitem (setitem P ''_permit_join'' kp1) ''_cs_join'' kp2"
  define E1 where "E1 = setitem (setitem E ''_permit_join'' ke1) ''_cs_join'' ke2"
  have nk: "normalize_join_keys lib P E = Inr (P', E1)"
    using g k by (simp add: normalize_join_keys_def set_join_key_def P'_def E1_def)
  obtain E' where cc: "coordinate_cleanup lib E1 = Inr E'"
    using coordinate_cleanup_eq by blast
  from coordinate_cleanup_names[OF cc] have
    dE': "distinct (names E')" and
    sE': "set (names E') = set (names E1) \<union> {''latitude_measure'', ''longitude_measure''}" and
    gE': "\<forall>c. c \<noteq> ''latitude_measure'' \<and> c \<noteq> ''longitude_measure'' \<longrightarrow> getitem E' c = getitem E1 c"
    using dE by (simp_all add: E1_def distinct_names_setitem)
  have dP': "distinct (names P')" using dP by (simp add: P'_def distinct_names_setitem)
  have sP': "set (names P') = set (names P) \<union> set join_cols"
    by (auto simp: P'_def set_names_setitem join_cols_def)
  have jE': "getitem E' ''_permit_join'' = Inr ke1" "getitem E' ''_cs_join'' = Inr ke2"
    using gE' by (simp_all add: E1_def)
  obtain ek pk where ek: "key_rows E' join_cols = Inr ek" and pk: "key_rows P' join_cols = Inr pk"
    using key_rows_join_cols[OF jE'] key_rows_join_cols[of P' kp1 kp2] by (simp add: P'_def)
  have nc': "\<forall>c\<in>set (names P'). c \<notin> set join_cols \<longrightarrow> c @ ''_coll'' \<notin> set (names P')"
    using nc suffix_not_join_col by (auto simp: sP')
  from merge_left_ok[OF ek pk dE' dP' nc'] obtain m0 where
    ml: "merge_left E' P' join_cols ([], ''_coll'') = Inr m0" by blast
  from merge_left_columns[OF ml] have
    left0: "\<forall>c s. getitem E' c = Inr s \<longrightarrow> (\<exists>x. getitem m0 c = Inr x)" and
    right0: "\<forall>c s. getitem P' c = Inr s \<and> c \<notin> set join_cols \<and> c \<notin> set (names E') \<longrightarrow>
               (\<exists>x. getitem m0 c = Inr x)"
    by auto
  have "\<forall>c\<in>set join_cols. c \<in> set (names m0)"
    using left0 jE' getitem_Inr_iff[of m0] by (auto simp: join_cols_def)
  from drop_columns_ok[OF this] obtain m where dc: "drop_columns m0 join_cols = Inr m" by blast
  have fromE: "\<exists>x. getitem m c = Inr x"
    if "c \<in> set (names E)" "c \<notin> set join_cols" "c \<noteq> ''latitude_measure''" "c \<noteq> ''longitude_measure''"
    for c
  proof -
    from ex[OF that(1)] obtain s where "getitem E c = Inr s" by blast
    with that have "getitem E' c = Inr s" using gE' by (simp add: E1_def join_cols_def)
    with left0 getitem_drop_columns[OF dc that(2)] show ?thesis by auto
  qed
  have fromP: "\<exists>x. getitem m c = Inr x" if c: "c \<in> set (names P)" "c \<notin> set join_cols" for c
  proof (cases "c \<in> set (names E')")
    case True
    from ex[OF True] obtain s where "getitem E' c = Inr s" by blast
    with left0 getitem_drop_columns[OF dc c(2)] show ?thesis by auto
  next
    case False
    from ex[OF c(1)] obtain s where "getitem P c = Inr s" by blast
    with c have "getitem P' c = Inr s" by (auto simp: P'_def join_cols_def)
    with right0 False c getitem_drop_columns[OF dc c(2)] show ?thesis by auto
  qed
  have "\<exists>x. getitem m ''sewer_overflow_bypass_start_datetime'' = Inr x"
    by (rule fromE[OF inE(4)]) (simp_all add: join_cols_def)
  then obtain start where a: "getitem m ''sewer_overflow_bypass_start_datetime'' = Inr start"
    by blast
  have "\<exists>x. getitem m ''sewer_overflow_bypass_end_datetime'' = Inr x"
    by (rule fromE[OF inE(5)]) (simp_all add: join_cols_def)
  then obtain en where b: "getitem m ''sewer_overflow_bypass_end_datetime'' = Inr en"
    by blast
  have "\<exists>x. getitem m ''sewer_overflow_bypass_discharge_volume_gallons'' = Inr x"
    by (rule fromE[OF inE(6)]) (simp_all add: join_cols_def)
  then obtain vol where c: "getitem m ''sewer_overflow_bypass_discharge_volume_gallons'' = Inr vol"
    by blast
  have "\<exists>x. getitem m ''sewer_overflow_bypass_event_key'' = Inr x"
    by (rule fromE[OF inE(3)]) (simp_all add: join_cols_def)
  then obtain evk where d: "getitem m ''sewer_overflow_bypass_event_key'' = Inr evk"
    by blast
  from parse_summary_columns_ok[OF a b c] obtain df where
    ps: "parse_summary_columns lib m = Inr df" by blast
  from parse_summary_columns_result[OF ps] a b c obtain y where
    df: "df = setitem (setitem (setitem (setitem m ''sso_start_dt'' (to_datetime lib start))
                  ''sso_end_dt'' (to_datetime lib en))
                  ''sso_volume_gal'' (to_numeric_series lib vol)) ''year'' y"
    by auto
  have keep: "getitem df c = getitem m c"
    if "c \<noteq> ''sso_start_dt''" "c \<noteq> ''sso_end_dt''" "c \<noteq> ''sso_volume_gal''" "c \<noteq> ''year''" for c
    using that by (simp add: df)
  have gc: "\<forall>c\<in>set summary_group_cols. c \<in> set (names df)"
  proof -
    have "\<exists>x. getitem df c = Inr x" if "c \<in> set summary_group_cols" for c
    proof (cases "c = ''year''")
      case True
      then show ?thesis by (simp add: df)
    next
      case False
      with that have cP: "c \<in> set (names P)" and cj: "c \<notin> set join_cols"
        using inP by (auto simp: summary_group_cols_def join_cols_def)
      from False that have "getitem df c = getitem m c"
        by (intro keep) (auto simp: summary_group_cols_def)
      with fromP[OF cP cj] show ?thesis by simp
    qed
    then show ?thesis using getitem_Inr_iff by blast
  qed
  from to_numeric_series_NumS[of lib vol] obtain v where v: "to_numeric_series lib vol = NumS v"
    by blast
  from to_datetime_TimeS[of lib start] obtain ta where ta: "to_datetime lib start = TimeS ta"
    by blast
  from to_datetime_TimeS[of lib en] obtain tb where tb: "to_datetime lib en = TimeS tb"
    by blast
  have "\<exists>s. groupby_agg df = Inr s"
  proof (rule groupby_agg_ok[OF gc])
    show "getitem df ''sewer_overflow_bypass_event_key'' = Inr evk" using d by (simp add: keep)
    show "getitem df ''sso_volume_gal'' = Inr (NumS v)" by (simp add: df v)
    show "getitem df ''sso_start_dt'' = Inr (TimeS ta)" by (simp add: df ta)
    show "getitem df ''sso_end_dt'' = Inr (TimeS tb)" by (simp add: df tb)
  qed
  then obtain s where ga: "groupby_agg df = Inr s" by blast
  show ?thesis
    by (simp add: merge_sso_with_collection_system_def Let_def nk cc ml dc ps ga)
qed

subsection \<open>The function on the concrete tables\<close>

lemma run_four:
  "merge_sso_with_collection_system lib_test P_single E_four
     = Inr (out_four, P_single_after, E_four_after)"
  by code_simp

lemma run_fan:
  "merge_sso_with_collection_system lib_test P_fan E_one
     = Inr (out_fan, P_fan_after, E_one_after)"
  by code_simp

lemma run_null:
  "merge_sso_with_collection_system lib_test P_null E_null
     = Inr (out_null, P_null_after, E_null_after)"
  by code_simp

subsection \<open>Raw outputs, parsing and absent columns\<close>

lemma drop_ignore_none: "set (names f) \<inter> set cs = {} \<Longrightarrow> drop_ignore f cs = f"
proof -
  assume a: "set (names f) \<inter> set cs = {}"
  have "filter (\<lambda>(c, s). c \<notin> set cs) (columns f) = columns f"
    by (rule filter_True) (use a in \<open>auto simp: names_def\<close>)
  then show ?thesis by (simp add: drop_ignore_def)
qed

lemma names_drop_ignore: "set (names (drop_ignore f cs)) \<inter> set cs = {}"
  by (auto simp: names_def drop_ignore_def)


lemma to_numeric_null:
  assumes "i < slen s"
    and "cells s ! i = Null \<or> (\<exists>t. cells s ! i = Str t \<and> parse_num lib t = None)"
  shows "cells (to_numeric_series lib s) ! i = Null"
  using assms by (cases s) (auto split: option.splits)

lemma to_datetime_null:
  assumes "i < slen s"
    and "cells s ! i = Null \<or> (\<exists>t. cells s ! i = Str t \<and> parse_dt lib t = None)"
  shows "cells (to_datetime lib s) ! i = Null"
  using assms by (cases s) (auto split: option.splits)

lemma corrected_row_null:
  "fst (corrected_row (None, lo)) = None \<and> snd (corrected_row (None, lo)) = lo \<and>
   snd (corrected_row (la, None)) = None"
  by (cases la) simp_all


lemma all_None_replicate: "length xs = n \<Longrightarrow> \<forall>x\<in>set xs. x = None \<Longrightarrow> xs = replicate n None"
  by (simp add: replicate_eqI)

lemma lat_after_None: "lat_after (replicate n None) = replicate n None"
  by (rule all_None_replicate) (auto simp: lat_after_def dest!: set_zip_rightD)

lemma lon_after_None:
  assumes "length la = n"
  shows "lon_after la (replicate n None) = replicate n None"
proof (rule all_None_replicate)
  show "length (lon_after la (replicate n None)) = n"
    using assms by (simp add: lon_after_def lon_mid_def lat_after_def mask_and_def)
next
  have "\<forall>x\<in>set (lon_mid la (replicate n None)). x = None"
    by (auto simp: lon_mid_def dest!: set_zip_rightD)
  then show "\<forall>x\<in>set (lon_after la (replicate n None)). x = None"
    by (auto simp: lon_after_def dest!: set_zip_rightD)
qed

lemma numeric_column_absent:
  "c \<notin> set (names f) \<Longrightarrow> numeric_column lib f c = replicate (nrows f) None"
  using map_of_None_names[of f c] by (simp add: numeric_column_def frame_get_def)

lemma set_join_key_Inr:
  "getitem f src = Inr s \<Longrightarrow> \<exists>k. set_join_key lib f dst src = Inr (setitem f dst k)"
  using normalized_StrS[of lib s] by (auto simp: set_join_key_def)

lemma set_join_key_Inl:
  "src \<notin> set (names f) \<Longrightarrow> set_join_key lib f dst src = Inl (KeyError src)"
  using getitem_Inl_iff[of f src "KeyError src"] by (simp add: set_join_key_def)

lemma normalize_join_keys_KeyError:
  assumes "''permit_identifier'' \<notin> set (names P) \<or> ''permit_identifier'' \<notin> set (names E) \<or>
           ''collection_system_identifier'' \<notin> set (names P) \<or>
           ''collection_system_identifier'' \<notin> set (names E)"
  shows "normalize_join_keys lib P E = Inl (KeyError ''permit_identifier'') \<or>
         normalize_join_keys lib P E = Inl (KeyError ''collection_system_identifier'')"
proof (cases "''permit_identifier'' \<in> set (names P)")
  case False
  then show ?thesis by (simp add: normalize_join_keys_def set_join_key_Inl)
next
  case pP: True
  then obtain p1 where "getitem P ''permit_identifier'' = Inr p1"
    using getitem_Inr_iff[of P] by blast
  from set_join_key_Inr[OF this] obtain k1 where
    s1: "set_join_key lib P ''_permit_join'' ''permit_identifier''
           = Inr (setitem P ''_permit_join'' k1)" by blast
  show ?thesis
  proof (cases "''permit_identifier'' \<in> set (names E)")
    case False
    then show ?thesis by (simp add: normalize_join_keys_def s1 set_join_key_Inl)
  next
    case pE: True
    then obtain e1 where "getitem E ''permit_identifier'' = Inr e1"
      using getitem_Inr_iff[of E] by blast
    from set_join_key_Inr[OF this] obtain k2 where
      s2: "set_join_key lib E ''_permit_join'' ''permit_identifier''
             = Inr (setitem E ''_permit_join'' k2)" by blast
    show ?thesis
    proof (cases "''collection_system_identifier'' \<in> set (names P)")
      case False
      then have "''collection_system_identifier'' \<notin> set (names (setitem P ''_permit_join'' k1))"
        by (simp add: set_names_setitem)
      then show ?thesis by (simp add: normalize_join_keys_def s1 s2 set_join_key_Inl)
    next
      case cP: True
      then have "''collection_system_identifier'' \<in> set (names (setitem P ''_permit_join'' k1))"
        by (simp add: set_names_setitem)
      then obtain p2 where
        "getitem (setitem P ''_permit_join'' k1) ''collection_system_identifier'' = Inr p2"
        using getitem_Inr_iff[of "setitem P ''_permit_join'' k1"] by blast
      from set_join_key_Inr[OF this] obtain k3 where
        s3: "set_join_key lib (setitem P ''_permit_join'' k1) ''_cs_join''
               ''collection_system_identifier''
             = Inr (setitem (setitem P ''_permit_join'' k1) ''_cs_join'' k3)" by blast
      from assms pP pE cP have "''collection_system_identifier'' \<notin> set (names E)" by blast
      then have "''collection_system_identifier'' \<notin> set (names (setitem E ''_permit_join'' k2))"
        by (simp add: set_names_setitem)
      then show ?thesis by (simp add: normalize_join_keys_def s1 s2 s3 set_join_key_Inl)
    qed
  qed
qed


subsection \<open>A second run\<close>

lemma setitem_triv: "getitem f c = Inr s \<Longrightarrow> setitem f c s = f"
proof -
  assume "getitem f c = Inr s"
  then have "map_of (columns f) c = Some s" by (simp add: getitem_def split: option.splits)
  then have "AList.update c s (columns f) = columns f" by (rule update_triv)
  then show ?thesis by (simp add: setitem_def)
qed

lemma filter_update_dropped:
  "k \<in> set cs \<Longrightarrow>
   filter (\<lambda>(c, s). c \<notin> set cs) (AList.update k v al) = filter (\<lambda>(c, s). c \<notin> set cs) al"
  by (induction al) auto

lemma drop_ignore_setitem: "k \<in> set cs \<Longrightarrow> drop_ignore (setitem f k v) cs = drop_ignore f cs"
  by (simp add: drop_ignore_def setitem_def filter_update_dropped)

lemma corrected_row_idem: "corrected_row (corrected_row p) = corrected_row p"
proof (cases p)
  case (Pair la lo)
  then show ?thesis
    by (cases la; cases lo)
       (auto simp: correct_coordinates_def rule_A_def rule_B_def)
qed

lemma corrected_row_lat_nonneg:
  "fst (corrected_row p) = Some r \<Longrightarrow> 0 \<le> r"
proof (cases p)
  case (Pair la lo)
  assume "fst (corrected_row p) = Some r"
  with Pair show ?thesis
    by (cases la; cases lo)
       (auto simp: correct_coordinates_def rule_A_def rule_B_def split: if_splits)
qed

lemma length_lat_after [simp]: "length (lat_after la) = length la"
  by (simp add: lat_after_def)

lemma length_lon_after: "length lo = length la \<Longrightarrow> length (lon_after la lo) = length la"
  by (simp add: lon_after_def lon_mid_def mask_and_def)

lemma cleanup_lists_idem:
  assumes len: "length lo = length la"
  shows "lat_after (lat_after la) = lat_after la \<and>
         lon_mid (lat_after la) (lon_after la lo) = lon_after la lo \<and>
         lon_after (lat_after la) (lon_after la lo) = lon_after la lo"
proof -
  let ?A = "lat_after la" and ?B = "lon_after la lo"
  have lB: "length ?B = length ?A" using len by (simp add: length_lon_after)
  have row: "(?A ! i, ?B ! i) = corrected_row (la ! i, lo ! i)" if "i < length la" for i
    using corrected_row_nth[OF that len] .
  have row2: "(lat_after ?A ! i, lon_after ?A ?B ! i) = (?A ! i, ?B ! i)" if i: "i < length la" for i
  proof -
    from i have "i < length ?A" by simp
    from corrected_row_nth[OF this lB]
    have "(lat_after ?A ! i, lon_after ?A ?B ! i) = corrected_row (?A ! i, ?B ! i)" .
    also have "\<dots> = corrected_row (corrected_row (la ! i, lo ! i))" by (simp only: row[OF i])
    also have "\<dots> = (?A ! i, ?B ! i)" by (simp only: corrected_row_idem row[OF i])
    finally show ?thesis .
  qed
  have a: "lat_after ?A = ?A"
    by (rule nth_equalityI) (use row2 in auto)
  have c: "lon_after ?A ?B = ?B"
    by (rule nth_equalityI) (use row2 lB len in \<open>auto simp: length_lon_after\<close>)
  have nonneg: "\<not> (case ?A ! i of None \<Rightarrow> False | Some r \<Rightarrow> r < 0)" if i: "i < length la" for i
  proof (cases "?A ! i")
    case None
    then show ?thesis by simp
  next
    case (Some r)
    from row[OF i] have "fst (corrected_row (la ! i, lo ! i)) = ?A ! i" by (metis fst_conv)
    with Some corrected_row_lat_nonneg[of "(la ! i, lo ! i)" r] show ?thesis by simp
  qed
  have b: "lon_mid ?A ?B = ?B"
  proof (rule nth_equalityI)
    show "length (lon_mid ?A ?B) = length ?B" using lB by (simp add: lon_mid_def)
  next
    fix i assume "i < length (lon_mid ?A ?B)"
    then have i: "i < length la" using lB by (simp add: lon_mid_def)
    then show "lon_mid ?A ?B ! i = ?B ! i"
      using nonneg[OF i] lB by (simp add: lon_mid_def)
  qed
  from a b c show ?thesis by blast
qed

lemma numeric_column_NumS:
  "getitem f c = Inr (NumS xs) \<Longrightarrow> numeric_column lib f c = xs"
  by (simp add: numeric_column_def getitem_frame_get split: option.splits)

lemma coordinate_cleanup_fixpoint:
  assumes cc: "coordinate_cleanup lib f = Inr g" and ok: "lens_ok f"
  shows "coordinate_cleanup lib g = Inr g"
proof -
  let ?A = "numeric_column lib f ''latitude_measure''"
  let ?B = "numeric_column lib f ''longitude_measure''"
  have len: "length ?B = length ?A" using length_numeric_column[OF ok] by simp
  from cc have la: "getitem g ''latitude_measure'' = Inr (NumS (lat_after ?A))"
    and lo: "getitem g ''longitude_measure'' = Inr (NumS (lon_after ?A ?B))"
    unfolding coordinate_cleanup_eq by auto
  note A' = numeric_column_NumS[OF la, of lib] and B' = numeric_column_NumS[OF lo, of lib]
  note idem = cleanup_lists_idem[OF len]
  have s1: "setitem g ''latitude_measure'' (NumS (lat_after ?A)) = g"
    by (rule setitem_triv[OF la])
  have s2: "setitem g ''longitude_measure'' (NumS (lon_after ?A ?B)) = g"
    by (rule setitem_triv[OF lo])
  show ?thesis
    unfolding coordinate_cleanup_eq[of lib g] A' B'
    by (simp only: idem s1 s2)
qed

lemma rerun:
  assumes run: "merge_sso_with_collection_system lib P E = Inr (out, P', E')"
    and ok: "lens_ok E"
  shows "merge_sso_with_collection_system lib P' E'
           = Inr (out\<lparr>collection_system_permit_raw := drop_ignore P' join_cols,
                      sewer_overflow_bypass_event_raw := drop_ignore E' join_cols\<rparr>, P', E') \<and>
         drop_ignore P' join_cols = collection_system_permit_raw out"
proof -
  from pipeline_stages[OF run] obtain E1 m0 df where
    nk: "normalize_join_keys lib P E = Inr (P', E1)" and
    cc: "coordinate_cleanup lib E1 = Inr E'" and
    ml: "merge_left E' P' join_cols ([], ''_coll'') = Inr m0" and
    dc: "drop_columns m0 join_cols = Inr (sso_events_with_collection_system out)" and
    ps: "parse_summary_columns lib (sso_events_with_collection_system out) = Inr df" and
    ga: "groupby_agg df = Inr (sso_summary_by_permit_year out)" and
    rp: "collection_system_permit_raw out = drop_ignore P join_cols"
    by blast
  from normalize_join_keys_result[OF nk] obtain p1 p2 e1 e2 kp1 kp2 ke1 ke2 where
    g: "getitem P ''permit_identifier'' = Inr p1" "getitem P ''collection_system_identifier'' = Inr p2"
       "getitem E ''permit_identifier'' = Inr e1" "getitem E ''collection_system_identifier'' = Inr e2" and
    k: "normalized lib p1 = Inr kp1" "normalized lib p2 = Inr kp2"
       "normalized lib e1 = Inr ke1" "normalized lib e2 = Inr ke2" and
    P': "P' = setitem (setitem P ''_permit_join'' kp1) ''_cs_join'' kp2" and
    E1: "E1 = setitem (setitem E ''_permit_join'' ke1) ''_cs_join'' ke2"
    by blast
  from coordinate_cleanup_names[OF cc] have
    gE': "\<forall>c. c \<noteq> ''latitude_measure'' \<and> c \<noteq> ''longitude_measure'' \<longrightarrow> getitem E' c = getitem E1 c"
    by blast
  have gP: "getitem P' ''permit_identifier'' = Inr p1"
    "getitem P' ''collection_system_identifier'' = Inr p2"
    "getitem P' ''_permit_join'' = Inr kp1" "getitem P' ''_cs_join'' = Inr kp2"
    using g by (simp_all add: P')
  have gE: "getitem E' ''permit_identifier'' = Inr e1"
    "getitem E' ''collection_system_identifier'' = Inr e2"
    "getitem E' ''_permit_join'' = Inr ke1" "getitem E' ''_cs_join'' = Inr ke2"
    using g gE' by (simp_all add: E1)
  have nk': "normalize_join_keys lib P' E' = Inr (P', E')"
    by (simp add: normalize_join_keys_def set_join_key_def gP gE k
          setitem_triv[OF gP(3)] setitem_triv[OF gP(4)] setitem_triv[OF gE(3)] setitem_triv[OF gE(4)])
  from lens_ok_normalize_join_keys[OF nk] ok have ok1: "lens_ok E1" by simp
  note cc' = coordinate_cleanup_fixpoint[OF cc ok1]
  have run': "merge_sso_with_collection_system lib P' E'
           = Inr (out\<lparr>collection_system_permit_raw := drop_ignore P' join_cols,
                      sewer_overflow_bypass_event_raw := drop_ignore E' join_cols\<rparr>, P', E')"
    by (simp add: merge_sso_with_collection_system_def Let_def nk' cc' ml dc ps ga)
  have "drop_ignore P' join_cols = drop_ignore P join_cols"
    by (simp add: P' drop_ignore_setitem join_cols_def)
  with run' rp show ?thesis by simp
qed


section \<open>The claims\<close>

subsection \<open>C1: rows of the merged table\<close>

text \<open>
  C1, as stated: the merged table has exactly as many rows as the events table. The
  left merge does not hold that: an event whose normalized key pair is shared by two
  permit rows appears twice. Here one event meets two permit rows whose identifiers
  differ in case and whitespace only, and the merged table has two rows.
\<close>

theorem merged_row_count_counterexample:
  "merge_sso_with_collection_system lib_test P_fan E_one
     = Inr (out_fan, P_fan_after, E_one_after) \<and>
   nrows (sso_events_with_collection_system out_fan) = 2 \<and> nrows E_one = 1"
  using run_fan by (simp add: out_fan_def merged_fan_def E_one_def)

text \<open>
  C1, amended: when the call returns, the frames it leaves hold the normalized key pair
  of every row (\<open>pk\<close> for the permits, \<open>ek\<close> for the events), and the merged table has,
  for every event, one row for each permit row with the event's key pair, and one row
  when there is none. So no event is dropped, and the merged table has exactly the rows
  of the events table when no two permit rows share a normalized key pair.
\<close>

theorem merged_row_count:
  assumes run: "merge_sso_with_collection_system lib P E = Inr (out, P', E')"
  shows "\<exists>pk ek. key_rows P' join_cols = Inr pk \<and> key_rows E' join_cols = Inr ek \<and>
           length ek = nrows E \<and>
           nrows (sso_events_with_collection_system out)
             = sum_list (map (\<lambda>k. max 1 (count_list pk k)) ek) \<and>
           nrows E \<le> nrows (sso_events_with_collection_system out) \<and>
           (distinct pk \<longrightarrow> nrows (sso_events_with_collection_system out) = nrows E)"
proof -
  from pipeline_stages[OF run] obtain E1 m0 where
    nk: "normalize_join_keys lib P E = Inr (P', E1)" and
    cc: "coordinate_cleanup lib E1 = Inr E'" and
    ml: "merge_left E' P' join_cols ([], ''_coll'') = Inr m0" and
    dc: "drop_columns m0 join_cols = Inr (sso_events_with_collection_system out)"
    by blast
  from ml obtain ek pk where
    ek: "key_rows E' join_cols = Inr ek" and pk: "key_rows P' join_cols = Inr pk"
    by (auto simp: merge_left_def ebind_eq_Inr)
  have n: "nrows (sso_events_with_collection_system out)
             = sum_list (map (\<lambda>k. max 1 (count_list pk k)) ek)"
    using merge_left_nrows[OF ml ek pk] drop_columns_nrows[OF dc]
    by (simp add: length_left_join_indexer)
  have l: "length ek = nrows E"
    using key_rows_length[OF ek] coordinate_cleanup_nrows[OF cc] normalize_join_keys_nrows[OF nk]
    by simp
  show ?thesis
    using n l ek pk sum_list_max1_ge[of ek pk] sum_list_max1_distinct[of pk ek] by simp
qed

theorem merged_row_count_witness:
  "merge_sso_with_collection_system lib_test P_single E_four
     = Inr (out_four, P_single_after, E_four_after) \<and>
   key_rows P_single_after join_cols = Inr [[Str ''IA0012345'', Str ''A'']] \<and>
   nrows (sso_events_with_collection_system out_four) = nrows E_four"
proof -
  have k: "key_rows P_single_after join_cols = Inr [[Str ''IA0012345'', Str ''A'']]"
    by code_simp
  from merged_row_count[OF run_four] k run_four show ?thesis by auto
qed

subsection \<open>C2: the coordinate correction\<close>




subsection \<open>C3: the normalized join key\<close>



subsection \<open>C4: the raw outputs\<close>

text \<open>
  C4, as stated, holds for every pair of input tables. The raw outputs are the copies
  taken on entry, from which the columns labelled \<^verbatim>\<open>_permit_join\<close> and \<^verbatim>\<open>_cs_join\<close>
  are dropped when they exist: an input table that has a column of its own under one of
  these labels comes back without it. Here the events table has a column \<^verbatim>\<open>_cs_join\<close>,
  and the raw events output is the table without that column.
\<close>

theorem raw_outputs_counterexample:
  "map_sum (\<lambda>e. e) (\<lambda>r. sewer_overflow_bypass_event_raw (fst r))
     (merge_sso_with_collection_system lib_test P_single E_helper) = Inr E_one \<and>
   E_one \<noteq> E_helper"
proof -
  have ok: "tables_ok P_single E_helper"
    by (simp add: tables_ok_def required_permit_columns_def required_event_columns_def
          names_def P_single_def E_helper_def E_one_def)
  from run_succeeds[OF ok, of lib_test] obtain out P' E' where
    run: "merge_sso_with_collection_system lib_test P_single E_helper = Inr (out, P', E')"
    by blast
  from pipeline_stages[OF run] have
    "sewer_overflow_bypass_event_raw out = drop_ignore E_helper join_cols" by blast
  moreover have "drop_ignore E_helper join_cols = E_one"
    by (simp add: drop_ignore_def join_cols_def E_helper_def E_one_def)
  moreover have "E_one \<noteq> E_helper"
  proof
    assume "E_one = E_helper"
    then have "length (columns E_one) = length (columns E_helper)" by simp
    then show False by (simp add: E_helper_def)
  qed
  ultimately show ?thesis using run by simp
qed

text \<open>
  C4, amended: the raw outputs are the input tables as they were on entry (before the
  join keys, the numeric coercion and the sign correction were assigned) without any
  column labelled \<^verbatim>\<open>_permit_join\<close> or \<^verbatim>\<open>_cs_join\<close>; for an input table that has no
  column under these labels, the raw output is the input table itself, in schema and in
  every cell.
\<close>

theorem raw_outputs:
  assumes run: "merge_sso_with_collection_system lib P E = Inr (out, P', E')"
  shows "collection_system_permit_raw out = drop_ignore P join_cols \<and>
         sewer_overflow_bypass_event_raw out = drop_ignore E join_cols \<and>
         set (names (collection_system_permit_raw out)) \<inter> set join_cols = {} \<and>
         set (names (sewer_overflow_bypass_event_raw out)) \<inter> set join_cols = {} \<and>
         (set (names P) \<inter> set join_cols = {} \<longrightarrow> collection_system_permit_raw out = P) \<and>
         (set (names E) \<inter> set join_cols = {} \<longrightarrow> sewer_overflow_bypass_event_raw out = E)"
proof -
  from pipeline_stages[OF run] have
    p: "collection_system_permit_raw out = drop_ignore P join_cols" and
    e: "sewer_overflow_bypass_event_raw out = drop_ignore E join_cols"
    by blast+
  show ?thesis
    unfolding p e using names_drop_ignore drop_ignore_none by blast
qed

theorem raw_outputs_witness:
  "merge_sso_with_collection_system lib_test P_single E_four
     = Inr (out_four, P_single_after, E_four_after) \<and>
   set (names P_single) \<inter> set join_cols = {} \<and>
   set (names E_four) \<inter> set join_cols = {} \<and>
   collection_system_permit_raw out_four = P_single \<and>
   sewer_overflow_bypass_event_raw out_four = E_four \<and>
   getitem (sewer_overflow_bypass_event_raw out_four) ''latitude_measure''
     = Inr (StrS [Some ''-41'', Some ''40'', Some ''abc'', Some ''13''])"
proof -
  have n: "set (names P_single) \<inter> set join_cols = {}" "set (names E_four) \<inter> set join_cols = {}"
    by (simp_all add: names_def join_cols_def P_single_def E_four_def)
  have e: "getitem E_four ''latitude_measure''
             = Inr (StrS [Some ''-41'', Some ''40'', Some ''abc'', Some ''13''])"
    by (simp add: getitem_def E_four_def)
  from raw_outputs[OF run_four] run_four n e show ?thesis by auto
qed

subsection \<open>C5: cells that do not parse\<close>



subsection \<open>C6: every row falls in exactly one group\<close>

text \<open>
  C6: every row of the merged table is assigned to exactly one summary group, also when
  some of its six grouping values are null. The key of a merged row is its cells in the
  five identifying columns and the year of its parsed start time, null when the start
  time did not parse. The keys of the summary rows are all different and are exactly the
  keys that occur among the merged rows, so every merged row has exactly one summary row
  with its key: a row with a null year or a null population is in the group of that key,
  and two rows with equal keys, nulls included, are in the same group.
\<close>

theorem summary_groups:
  assumes run: "merge_sso_with_collection_system lib P E = Inr (out, P', E')"
  shows "\<exists>df_summary keys gkeys k1 k2 k3 k4 k5 start ts.
           parse_summary_columns lib (sso_events_with_collection_system out) = Inr df_summary \<and>
           key_rows df_summary summary_group_cols = Inr keys \<and>
           length keys = nrows (sso_events_with_collection_system out) \<and>
           key_rows (sso_summary_by_permit_year out) summary_group_cols = Inr gkeys \<and>
           length gkeys = nrows (sso_summary_by_permit_year out) \<and>
           distinct gkeys \<and> set gkeys = set keys \<and>
           (\<forall>i<nrows (sso_events_with_collection_system out).
              \<exists>!g. g < nrows (sso_summary_by_permit_year out) \<and> gkeys ! g = keys ! i) \<and>
           getitem (sso_events_with_collection_system out) ''permit_identifier'' = Inr k1 \<and>
           getitem (sso_events_with_collection_system out) ''collection_system_identifier'' = Inr k2 \<and>
           getitem (sso_events_with_collection_system out) ''collection_system_name'' = Inr k3 \<and>
           getitem (sso_events_with_collection_system out) ''collection_system_owner_type_desc'' = Inr k4 \<and>
           getitem (sso_events_with_collection_system out) ''collection_system_population'' = Inr k5 \<and>
           getitem (sso_events_with_collection_system out) ''sewer_overflow_bypass_start_datetime''
             = Inr start \<and>
           to_datetime lib start = TimeS ts \<and>
           (\<forall>i<nrows (sso_events_with_collection_system out).
              keys ! i = [cells k1 ! i, cells k2 ! i, cells k3 ! i, cells k4 ! i, cells k5 ! i,
                          case ts ! i of None \<Rightarrow> Null | Some t \<Rightarrow> Num (rat_of_int (year_of lib t))])"
proof -
  let ?m = "sso_events_with_collection_system out"
  let ?s = "sso_summary_by_permit_year out"
  from summary_all[OF run] obtain df_summary k1 k2 k3 k4 k5 y start where
    ps: "parse_summary_columns lib ?m = Inr df_summary" and
    h1: "getitem ?m ''permit_identifier'' = Inr k1" and
    h2: "getitem ?m ''collection_system_identifier'' = Inr k2" and
    h3: "getitem ?m ''collection_system_name'' = Inr k3" and
    h4: "getitem ?m ''collection_system_owner_type_desc'' = Inr k4" and
    h5: "getitem ?m ''collection_system_population'' = Inr k5" and
    a: "getitem ?m ''sewer_overflow_bypass_start_datetime'' = Inr start" and
    d: "dt_year lib (to_datetime lib start) = Inr y" and
    l1: "slen k1 = nrows ?m" and l2: "slen k2 = nrows ?m" and l3: "slen k3 = nrows ?m" and
    l4: "slen k4 = nrows ?m" and l5: "slen k5 = nrows ?m" and l6: "slen y = nrows ?m" and
    l7: "slen start = nrows ?m" and
    kd: "key_rows df_summary summary_group_cols = Inr (rows_of (nrows ?m) [k1, k2, k3, k4, k5, y])" and
    kr: "key_rows ?s summary_group_cols = Inr (group_keys (rows_of (nrows ?m) [k1, k2, k3, k4, k5, y]))" and
    ns: "nrows ?s = length (group_keys (rows_of (nrows ?m) [k1, k2, k3, k4, k5, y]))"
    by blast
  let ?keys = "rows_of (nrows ?m) [k1, k2, k3, k4, k5, y]"
  obtain ts where ts: "to_datetime lib start = TimeS ts" using to_datetime_TimeS by blast
  have lts: "length ts = nrows ?m" using l7 slen_to_datetime[of lib start] ts by simp
  have y: "y = NumS (map (map_option (\<lambda>t. rat_of_int (year_of lib t))) ts)"
    using d ts by simp
  have uniq: "\<forall>i<nrows ?m. \<exists>!g. g < nrows ?s \<and> group_keys ?keys ! g = ?keys ! i"
    using unique_group[of _ ?keys] ns by simp
  have rows: "\<forall>i<nrows ?m. ?keys ! i = [cells k1 ! i, cells k2 ! i, cells k3 ! i, cells k4 ! i, cells k5 ! i,
                          case ts ! i of None \<Rightarrow> Null | Some t \<Rightarrow> Num (rat_of_int (year_of lib t))]"
    using lts l1 l2 l3 l4 l5 by (auto simp: rows_of_nth y split: option.splits)
  show ?thesis
    apply (rule exI[of _ df_summary], rule exI[of _ ?keys], rule exI[of _ "group_keys ?keys"])
    apply (rule exI[of _ k1], rule exI[of _ k2], rule exI[of _ k3], rule exI[of _ k4])
    apply (rule exI[of _ k5], rule exI[of _ start], rule exI[of _ ts])
    using ps kd kr ns uniq h1 h2 h3 h4 h5 a ts rows
    by (intro conjI) (simp_all del: rows_of_nth)
qed

theorem summary_groups_witness:
  "merge_sso_with_collection_system lib_test P_single E_four
     = Inr (out_four, P_single_after, E_four_after) \<and>
   getitem (sso_events_with_collection_system out_four) ''sewer_overflow_bypass_start_datetime''
     = Inr (StrS [Some ''2020'', Some ''2020'', Some ''2020'', Some ''x'']) \<and>
   getitem (sso_summary_by_permit_year out_four) ''year'' = Inr (NumS [Some 2020, None]) \<and>
   getitem (sso_summary_by_permit_year out_four) ''collection_system_population''
     = Inr (NumS [None, None]) \<and>
   nrows (sso_summary_by_permit_year out_four) = 2"
proof -
  have e: "getitem (sso_events_with_collection_system out_four)
             ''sewer_overflow_bypass_start_datetime''
           = Inr (StrS [Some ''2020'', Some ''2020'', Some ''2020'', Some ''x''])"
    "getitem (sso_summary_by_permit_year out_four) ''year'' = Inr (NumS [Some 2020, None])"
    "getitem (sso_summary_by_permit_year out_four) ''collection_system_population''
       = Inr (NumS [None, None])"
    "nrows (sso_summary_by_permit_year out_four) = 2"
    by (simp_all add: out_four_def merged_four_def summary_four_def getitem_def)
  from summary_groups[OF run_four] run_four e show ?thesis by blast
qed

subsection \<open>C7: the event count of a group\<close>

text \<open>
  C7: for every summary group, \<^verbatim>\<open>sso_event_count\<close> is the number of distinct event keys
  among the rows of the group, so a key that two or more rows of the group carry counts
  once. (A row without an event key has no key to count: \<^verbatim>\<open>nunique\<close> leaves nulls
  out.)
\<close>

theorem summary_event_count:
  assumes run: "merge_sso_with_collection_system lib P E = Inr (out, P', E')"
  shows "\<exists>df_summary keys gkeys ek counts.
           parse_summary_columns lib (sso_events_with_collection_system out) = Inr df_summary \<and>
           key_rows df_summary summary_group_cols = Inr keys \<and>
           length keys = nrows (sso_events_with_collection_system out) \<and>
           key_rows (sso_summary_by_permit_year out) summary_group_cols = Inr gkeys \<and>
           length gkeys = nrows (sso_summary_by_permit_year out) \<and>
           getitem (sso_events_with_collection_system out) ''sewer_overflow_bypass_event_key'' = Inr ek \<and>
           getitem (sso_summary_by_permit_year out) ''sso_event_count'' = Inr (NumS counts) \<and>
           length counts = nrows (sso_summary_by_permit_year out) \<and>
           (\<forall>g<nrows (sso_summary_by_permit_year out).
              counts ! g = Some (of_nat (card
                ((\<lambda>i. cells ek ! i) `
                   {i. i < nrows (sso_events_with_collection_system out) \<and> keys ! i = gkeys ! g}
                 - {Null}))))"
proof -
  let ?m = "sso_events_with_collection_system out"
  let ?s = "sso_summary_by_permit_year out"
  from summary_all[OF run] obtain df_summary k1 k2 k3 k4 k5 y ek where
    ps: "parse_summary_columns lib ?m = Inr df_summary" and
    hek: "getitem ?m ''sewer_overflow_bypass_event_key'' = Inr ek" and
    kd: "key_rows df_summary summary_group_cols = Inr (rows_of (nrows ?m) [k1, k2, k3, k4, k5, y])" and
    kr: "key_rows ?s summary_group_cols = Inr (group_keys (rows_of (nrows ?m) [k1, k2, k3, k4, k5, y]))" and
    ns: "nrows ?s = length (group_keys (rows_of (nrows ?m) [k1, k2, k3, k4, k5, y]))" and
    c1: "getitem ?s ''sso_event_count''
           = Inr (agg_nunique ek
               (map (group_rows (rows_of (nrows ?m) [k1, k2, k3, k4, k5, y]))
                    (group_keys (rows_of (nrows ?m) [k1, k2, k3, k4, k5, y]))))"
    by blast
  let ?keys = "rows_of (nrows ?m) [k1, k2, k3, k4, k5, y]"
  let ?counts = "map (\<lambda>g. Some (of_nat (nunique (map (\<lambda>i. cells ek ! i) g)) :: rat))
                   (map (group_rows ?keys) (group_keys ?keys))"
  have c: "getitem ?s ''sso_event_count'' = Inr (NumS ?counts)"
    using c1 by (simp add: agg_nunique_def)
  have v: "\<forall>g<nrows ?s. ?counts ! g = Some (of_nat (card
                ((\<lambda>i. cells ek ! i) ` {i. i < nrows ?m \<and> ?keys ! i = group_keys ?keys ! g} - {Null})))"
    using ns by (simp add: nunique_card set_group_rows del: rows_of_nth)
  show ?thesis
    apply (rule exI[of _ df_summary], rule exI[of _ ?keys], rule exI[of _ "group_keys ?keys"])
    apply (rule exI[of _ ek], rule exI[of _ ?counts])
    using ps kd kr ns hek c v
    by (intro conjI) (simp_all del: rows_of_nth)
qed

theorem summary_event_count_witness:
  "merge_sso_with_collection_system lib_test P_fan E_one
     = Inr (out_fan, P_fan_after, E_one_after) \<and>
   getitem (sso_events_with_collection_system out_fan) ''sewer_overflow_bypass_event_key''
     = Inr (NumS [Some 1, Some 1]) \<and>
   nrows (sso_summary_by_permit_year out_fan) = 1 \<and>
   getitem (sso_summary_by_permit_year out_fan) ''sso_event_count'' = Inr (NumS [Some 1])"
proof -
  have e: "getitem (sso_events_with_collection_system out_fan) ''sewer_overflow_bypass_event_key''
             = Inr (NumS [Some 1, Some 1])"
    "nrows (sso_summary_by_permit_year out_fan) = 1"
    "getitem (sso_summary_by_permit_year out_fan) ''sso_event_count'' = Inr (NumS [Some 1])"
    by (simp_all add: out_fan_def merged_fan_def summary_fan_def getitem_def)
  from summary_event_count[OF run_fan] run_fan e show ?thesis by blast
qed

subsection \<open>C8: the total volume of a group\<close>



subsection \<open>C9: running twice\<close>



subsection \<open>C10: absent columns\<close>



end
